theory Spec2Isabelle
  imports Complex_Main "HOL-Library.Sublist"
begin

text \<open>
  A shallow embedding of the image optimiser: \<open>ImageProcessor\<close> (the derivative set of a
  source image over breakpoints, formats and retina variants), the guard of
  \<open>App.handleProcess\<close>, and \<open>ImageQualityAnalyzer\<close> (sharpness and confidence), with the
  properties of the specification that concern them.
\<close>

section \<open>JavaScript numbers\<close>

text \<open>
  The program computes with JavaScript numbers, which are IEEE binary64 values. A finite
  number is the real it denotes (\<open>Num\<close>); the infinities and \<open>NaN\<close>, which the program can
  reach through a division by zero or a read outside an array, are kept apart. Every
  addition, subtraction, multiplication and division returns the exact result rounded to
  the nearest binary64 value, a tie going to the even significand (\<open>binary64\<close>), and a
  literal such as \<open>0.299\<close> is the binary64 value nearest to it. The sign of zero is not
  modelled: a zero divisor counts as \<open>+0\<close>, which is what a length or an image width is.
\<close>

datatype jsnum = Num real | PosInf | NegInf | NaN

fun js_neg :: "jsnum \<Rightarrow> jsnum" where
  "js_neg (Num a) = Num (- a)"
| "js_neg PosInf = NegInf"
| "js_neg NegInf = PosInf"
| "js_neg NaN = NaN"

text \<open>
  Rounding to binary64. For \<open>x > 0\<close>, \<open>binade x\<close> is the power of two \<open>p\<close> with
  \<open>p \<le> x < 2 * p\<close>, searched from 1 upwards to at most \<open>2^1023\<close> and downwards to at least
  \<open>2^-1022\<close> (below that the values are subnormal and keep the spacing of the last binade).
  The values of a binade are the multiples of \<open>p / 2^52\<close>; \<open>x\<close> goes to the nearest one, and
  a result of \<open>2^1024\<close> or more is \<open>Infinity\<close>.
\<close>

definition round_ties_even :: "real \<Rightarrow> int" where
  "round_ties_even y =
     (let n = \<lfloor>y\<rfloor>; f = y - of_int n
      in if f < 1 / 2 then n else if 1 / 2 < f then n + 1 else if even n then n else n + 1)"

fun scale_up :: "nat \<Rightarrow> real \<Rightarrow> real \<Rightarrow> real" where
  "scale_up n x p = (if n = 0 then p else if 2 * p \<le> x then scale_up (n - 1) x (2 * p) else p)"

fun scale_down :: "nat \<Rightarrow> real \<Rightarrow> real \<Rightarrow> real" where
  "scale_down n x p = (if n = 0 then p else if x < p then scale_down (n - 1) x (p / 2) else p)"

declare scale_up.simps [simp del] scale_down.simps [simp del]

definition binade :: "real \<Rightarrow> real" where
  "binade x = (if 1 \<le> x then scale_up 1023 x 1 else scale_down 1022 x 1)"

definition binary64_pos :: "real \<Rightarrow> jsnum" where
  "binary64_pos x =
     (let ulp = binade x / 2 ^ 52;
          r = of_int (round_ties_even (x / ulp)) * ulp
      in if 2 ^ 1024 \<le> r then PosInf else Num r)"

definition binary64 :: "real \<Rightarrow> jsnum" where
  "binary64 x =
     (if x = 0 then Num 0
      else if 0 < x then binary64_pos x
      else js_neg (binary64_pos (- x)))"

fun js_add :: "jsnum \<Rightarrow> jsnum \<Rightarrow> jsnum" where
  "js_add (Num a) (Num b) = binary64 (a + b)"
| "js_add NaN _ = NaN"
| "js_add _ NaN = NaN"
| "js_add PosInf NegInf = NaN"
| "js_add NegInf PosInf = NaN"
| "js_add PosInf _ = PosInf"
| "js_add _ PosInf = PosInf"
| "js_add NegInf _ = NegInf"
| "js_add _ NegInf = NegInf"

definition js_sub :: "jsnum \<Rightarrow> jsnum \<Rightarrow> jsnum" where
  "js_sub a b = js_add a (js_neg b)"

fun js_mul :: "jsnum \<Rightarrow> jsnum \<Rightarrow> jsnum" where
  "js_mul (Num a) (Num b) = binary64 (a * b)"
| "js_mul NaN _ = NaN"
| "js_mul _ NaN = NaN"
| "js_mul PosInf (Num b) = (if b = 0 then NaN else if 0 < b then PosInf else NegInf)"
| "js_mul (Num a) PosInf = (if a = 0 then NaN else if 0 < a then PosInf else NegInf)"
| "js_mul NegInf (Num b) = (if b = 0 then NaN else if 0 < b then NegInf else PosInf)"
| "js_mul (Num a) NegInf = (if a = 0 then NaN else if 0 < a then NegInf else PosInf)"
| "js_mul PosInf PosInf = PosInf"
| "js_mul NegInf NegInf = PosInf"
| "js_mul PosInf NegInf = NegInf"
| "js_mul NegInf PosInf = NegInf"

fun js_div :: "jsnum \<Rightarrow> jsnum \<Rightarrow> jsnum" where
  "js_div (Num a) (Num b) =
     (if b = 0 then (if a = 0 then NaN else if 0 < a then PosInf else NegInf)
      else binary64 (a / b))"
| "js_div NaN _ = NaN"
| "js_div _ NaN = NaN"
| "js_div (Num a) PosInf = Num 0"
| "js_div (Num a) NegInf = Num 0"
| "js_div PosInf (Num b) = (if 0 \<le> b then PosInf else NegInf)"
| "js_div NegInf (Num b) = (if 0 \<le> b then NegInf else PosInf)"
| "js_div PosInf PosInf = NaN"
| "js_div PosInf NegInf = NaN"
| "js_div NegInf PosInf = NaN"
| "js_div NegInf NegInf = NaN"

text \<open>\<open>a < b\<close> and \<open>a > b\<close>: every comparison with \<open>NaN\<close> is false.\<close>

fun js_lt :: "jsnum \<Rightarrow> jsnum \<Rightarrow> bool" where
  "js_lt (Num a) (Num b) = (a < b)"
| "js_lt NaN _ = False"
| "js_lt _ NaN = False"
| "js_lt PosInf _ = False"
| "js_lt _ NegInf = False"
| "js_lt NegInf _ = True"
| "js_lt _ PosInf = True"

definition js_gt :: "jsnum \<Rightarrow> jsnum \<Rightarrow> bool" where
  "js_gt a b = js_lt b a"

text \<open>
  \<open>Math.round\<close>: the nearest integer, a tie going to the larger one; the result is exact.
\<close>

fun Math_round :: "jsnum \<Rightarrow> jsnum" where
  "Math_round (Num a) = Num (of_int \<lfloor>a + 1 / 2\<rfloor>)"
| "Math_round x = x"

text \<open>\<open>Math.pow(x, 2)\<close>: the square, rounded.\<close>

fun Math_pow2 :: "jsnum \<Rightarrow> jsnum" where
  "Math_pow2 (Num a) = binary64 (a * a)"
| "Math_pow2 NaN = NaN"
| "Math_pow2 _ = PosInf"

text \<open>
  \<open>Math.min(...xs)\<close> and \<open>Math.max(...xs)\<close>: \<open>+Infinity\<close> and \<open>-Infinity\<close> for no argument,
  \<open>NaN\<close> as soon as one argument is \<open>NaN\<close>.
\<close>

fun min2 :: "jsnum \<Rightarrow> jsnum \<Rightarrow> jsnum" where
  "min2 NaN _ = NaN"
| "min2 _ NaN = NaN"
| "min2 a b = (if js_lt b a then b else a)"

fun max2 :: "jsnum \<Rightarrow> jsnum \<Rightarrow> jsnum" where
  "max2 NaN _ = NaN"
| "max2 _ NaN = NaN"
| "max2 a b = (if js_lt a b then b else a)"

definition Math_min :: "jsnum list \<Rightarrow> jsnum" where
  "Math_min xs = foldr min2 xs PosInf"

definition Math_max :: "jsnum list \<Rightarrow> jsnum" where
  "Math_max xs = foldr max2 xs NegInf"

text \<open>
  Assigning a number to \<open>canvas.width\<close> or \<open>canvas.height\<close> converts it to an unsigned
  long: \<open>NaN\<close> and the infinities become 0, a finite value is truncated and taken
  modulo \<open>2^32\<close>.
\<close>

fun to_unsigned_long :: "jsnum \<Rightarrow> nat" where
  "to_unsigned_long (Num a) = nat ((if 0 \<le> a then \<lfloor>a\<rfloor> else \<lceil>a\<rceil>) mod 2 ^ 32)"
| "to_unsigned_long _ = 0"

text \<open>
  A template literal \<open>${n}\<close> of a non-negative integer (below \<open>10^21\<close>, where JavaScript
  changes to the exponent notation): its decimal digits.
\<close>

definition digit_char :: "nat \<Rightarrow> char" where
  "digit_char d = ''0123456789'' ! d"

function show_nat :: "nat \<Rightarrow> string" where
  "show_nat n = (if n < 10 then [digit_char n] else show_nat (n div 10) @ [digit_char (n mod 10)])"
  by pat_completeness auto
termination
  by (relation "measure id") auto

declare show_nat.simps [simp del]


section \<open>Types of the image optimiser\<close>

record ImageFormat =
  fmt_name :: string
  extension :: string
  mimeType :: string

record Breakpoint =
  bp_name :: string
  bp_width :: nat
  description :: string

record ProcessingOptions =
  lossless :: bool
  quality :: real
  formats :: "ImageFormat list"
  breakpoints :: "Breakpoint list"
  includeRetina :: bool

text \<open>
  A blob is opaque to the program. It is modelled by the call of \<open>canvas.toBlob\<close> that
  produced it (the media type and the quality argument that were passed, \<open>None\<close> when no
  quality was passed) and by its length in bytes.
\<close>

record Blob =
  blob_type :: string
  blob_quality :: "real option"
  blob_size :: nat

record Dimensions =
  dim_width :: nat
  dim_height :: jsnum

record ProcessedImage =
  name :: string
  blob :: Blob
  size_bytes :: nat
  dimensions :: Dimensions

record ProcessingProgress =
  current :: nat
  total :: nat
  currentTask :: string

record HTMLImageElement =
  width :: nat
  height :: nat

definition IMAGE_FORMATS :: "ImageFormat list" where
  "IMAGE_FORMATS =
    [\<lparr>fmt_name = ''AVIF'', extension = ''avif'', mimeType = ''image/avif''\<rparr>,
     \<lparr>fmt_name = ''WebP'', extension = ''webp'', mimeType = ''image/webp''\<rparr>,
     \<lparr>fmt_name = ''JPEG'', extension = ''jpg'', mimeType = ''image/jpeg''\<rparr>,
     \<lparr>fmt_name = ''PNG'', extension = ''png'', mimeType = ''image/png''\<rparr>]"

definition DEFAULT_BREAKPOINTS :: "Breakpoint list" where
  "DEFAULT_BREAKPOINTS =
    [\<lparr>bp_name = ''4K'', bp_width = 3840, description = ''4K displays''\<rparr>,
     \<lparr>bp_name = ''2K'', bp_width = 2560, description = ''2K displays''\<rparr>,
     \<lparr>bp_name = ''1080p'', bp_width = 1920, description = ''Full HD displays''\<rparr>,
     \<lparr>bp_name = ''Tablet'', bp_width = 1024, description = ''Tablet devices''\<rparr>,
     \<lparr>bp_name = ''Mobile'', bp_width = 768, description = ''Mobile devices''\<rparr>,
     \<lparr>bp_name = ''Small Mobile'', bp_width = 480, description = ''Small mobile devices''\<rparr>]"


section \<open>The browser\<close>

text \<open>
  The program runs against three services of the browser, which are parameters of the
  model. Every JavaScript exception of the program is an \<open>Error\<close> with a message.
  \<^item> Loading a file into an \<open>Image\<close>: a \<open>File\<close> is modelled by what loading it yields, the
    decoded element, or \<open>None\<close> when \<open>onerror\<close> fires.
  \<^item> \<open>canvas.toBlob\<close>: for a canvas of the given size, a media type and an optional quality
    it throws, or calls back with \<open>null\<close>, or calls back with a blob of some length.
  \<^item> \<open>getContext('2d')\<close>: it returns a context or \<open>null\<close>.
  \<open>clearRect\<close> and \<open>drawImage\<close> change pixels only; pixels are not modelled on this side.
\<close>

datatype error = Error (message: string)

datatype File = File (decoded: "HTMLImageElement option")

record canvas =
  canvas_width :: nat
  canvas_height :: nat

datatype toBlob_outcome = Raises string | Calls_back "nat option"

record browser =
  context2d :: bool
  toBlob_impl :: "canvas \<Rightarrow> string \<Rightarrow> real option \<Rightarrow> toBlob_outcome"

datatype 'a toBlob_result = Thrown string | Callback 'a

definition toBlob :: "browser \<Rightarrow> canvas \<Rightarrow> string \<Rightarrow> real option \<Rightarrow> Blob option toBlob_result" where
  "toBlob env cv ty q =
     (case toBlob_impl env cv ty q of
        Raises m \<Rightarrow> Thrown m
      | Calls_back None \<Rightarrow> Callback None
      | Calls_back (Some n) \<Rightarrow> Callback (Some \<lparr>blob_type = ty, blob_quality = q, blob_size = n\<rparr>))"


section \<open>ImageProcessor\<close>

definition loadImage :: "File \<Rightarrow> error + HTMLImageElement" where
  "loadImage file =
     (case decoded file of
        Some img \<Rightarrow> Inr img
      | None \<Rightarrow> Inl (Error ''Failed to load image''))"

definition canvasToBlob :: "browser \<Rightarrow> canvas \<Rightarrow> ImageFormat \<Rightarrow> ProcessingOptions \<Rightarrow> error + Blob" where
  "canvasToBlob env cv format options =
     (let callback = (\<lambda>b. case b of
                             Some bl \<Rightarrow> Inr bl
                           | None \<Rightarrow> Inl (Error ''Failed to create blob''));
          attempt = (if extension format = ''png'' \<or> lossless options
                     then toBlob env cv ''image/png'' None
                     else let q = quality options / 100
                          in toBlob env cv (mimeType format) (Some q))
      in case attempt of
           Callback b \<Rightarrow> callback b
         | Thrown m \<Rightarrow> Inl (Error (''Canvas to blob conversion failed: '' @ m)))"

definition aspectRatio :: "HTMLImageElement \<Rightarrow> jsnum" where
  "aspectRatio img = js_div (Num (real (height img))) (Num (real (width img)))"

definition finalWidth :: "HTMLImageElement \<Rightarrow> nat \<Rightarrow> nat" where
  "finalWidth img targetWidth = min targetWidth (width img)"

definition finalHeight :: "HTMLImageElement \<Rightarrow> nat \<Rightarrow> jsnum" where
  "finalHeight img targetWidth =
     Math_round (js_mul (Num (real (finalWidth img targetWidth))) (aspectRatio img))"

definition resize_canvas :: "HTMLImageElement \<Rightarrow> nat \<Rightarrow> canvas" where
  "resize_canvas img targetWidth =
     \<lparr>canvas_width = to_unsigned_long (Num (real (finalWidth img targetWidth))),
      canvas_height = to_unsigned_long (finalHeight img targetWidth)\<rparr>"

definition createResizedImage ::
  "browser \<Rightarrow> HTMLImageElement \<Rightarrow> nat \<Rightarrow> ImageFormat \<Rightarrow> ProcessingOptions \<Rightarrow> string
    \<Rightarrow> error + ProcessedImage" where
  "createResizedImage env img targetWidth format options sizeSuffix =
     (case canvasToBlob env (resize_canvas img targetWidth) format options of
        Inr b \<Rightarrow>
          Inr \<lparr>name = ''image-'' @ sizeSuffix @ ''.'' @ extension format,
               blob = b,
               size_bytes = blob_size b,
               dimensions = \<lparr>dim_width = finalWidth img targetWidth,
                             dim_height = finalHeight img targetWidth\<rparr>\<rparr>
      | Inl e \<Rightarrow>
          Inl (Error (''Failed to create '' @ sizeSuffix @ '' image: '' @ message e)))"

text \<open>
  The two nested loops of \<open>processImage\<close> mutate the result list and the step counter and
  call \<open>onProgress\<close>; \<open>emitted\<close> is the list of the records passed to \<open>onProgress\<close>, oldest
  first (a caller that gives no callback sees none of them). An iteration completes
  normally or throws, and a throw leaves both loops.
\<close>

record loop_state =
  results :: "ProcessedImage list"
  currentStep :: nat
  emitted :: "ProcessingProgress list"

datatype completion = Normal loop_state | Abrupt error loop_state

definition push_result :: "ProcessedImage \<Rightarrow> nat \<Rightarrow> string \<Rightarrow> loop_state \<Rightarrow> loop_state" where
  "push_result derivative totalSteps task st =
     st\<lparr>results := results st @ [derivative],
        currentStep := currentStep st + 1,
        emitted := emitted st @
          [\<lparr>current = currentStep st + 1, total = totalSteps, currentTask = task\<rparr>]\<rparr>"

definition format_body ::
  "browser \<Rightarrow> HTMLImageElement \<Rightarrow> ProcessingOptions \<Rightarrow> nat \<Rightarrow> Breakpoint \<Rightarrow> ImageFormat
    \<Rightarrow> loop_state \<Rightarrow> completion" where
  "format_body env img options totalSteps breakpoint format st =
     (if lossless options \<and> extension format = ''jpg'' then Normal st
      else
        case createResizedImage env img (bp_width breakpoint) format options
               (show_nat (bp_width breakpoint)) of
          Inl e \<Rightarrow> Abrupt e st
        | Inr standardImage \<Rightarrow>
            let st1 = push_result standardImage totalSteps
                        (''Processing '' @ bp_name breakpoint @ '' '' @ fmt_name format) st
            in if includeRetina options
               then case createResizedImage env img (bp_width breakpoint * 2) format options
                           (show_nat (bp_width breakpoint) @ ''@2x'') of
                      Inl e \<Rightarrow> Abrupt e st1
                    | Inr retinaImage \<Rightarrow>
                        Normal (push_result retinaImage totalSteps
                          (''Processing '' @ bp_name breakpoint @ '' '' @ fmt_name format
                             @ '' @2x'') st1)
               else Normal st1)"

fun for_formats ::
  "browser \<Rightarrow> HTMLImageElement \<Rightarrow> ProcessingOptions \<Rightarrow> nat \<Rightarrow> Breakpoint \<Rightarrow> ImageFormat list
    \<Rightarrow> loop_state \<Rightarrow> completion" where
  "for_formats env img options totalSteps breakpoint [] st = Normal st"
| "for_formats env img options totalSteps breakpoint (format # rest) st =
     (case format_body env img options totalSteps breakpoint format st of
        Normal st' \<Rightarrow> for_formats env img options totalSteps breakpoint rest st'
      | Abrupt e st' \<Rightarrow> Abrupt e st')"

fun for_breakpoints ::
  "browser \<Rightarrow> HTMLImageElement \<Rightarrow> ProcessingOptions \<Rightarrow> nat \<Rightarrow> Breakpoint list
    \<Rightarrow> loop_state \<Rightarrow> completion" where
  "for_breakpoints env img options totalSteps [] st = Normal st"
| "for_breakpoints env img options totalSteps (breakpoint # rest) st =
     (case for_formats env img options totalSteps breakpoint (formats options) st of
        Normal st' \<Rightarrow> for_breakpoints env img options totalSteps rest st'
      | Abrupt e st' \<Rightarrow> Abrupt e st')"

definition totalSteps :: "ProcessingOptions \<Rightarrow> nat" where
  "totalSteps options =
     length (breakpoints options) * length (formats options)
       * (if includeRetina options then 2 else 1)"

text \<open>
  \<open>processImage\<close> returns the records it passed to \<open>onProgress\<close> together with its
  result: the derivatives, or the error it throws.
\<close>

definition processImage ::
  "browser \<Rightarrow> File \<Rightarrow> ProcessingOptions \<Rightarrow> ProcessingProgress list \<times> (error + ProcessedImage list)" where
  "processImage env file options =
     (case loadImage file of
        Inl e \<Rightarrow> ([], Inl (Error (''Failed to process image: '' @ message e)))
      | Inr img \<Rightarrow>
          (case for_breakpoints env img options (totalSteps options) (breakpoints options)
                  \<lparr>results = [], currentStep = 0, emitted = []\<rparr> of
             Normal st \<Rightarrow> (emitted st, Inr (results st))
           | Abrupt e st \<Rightarrow>
               (emitted st, Inl (Error (''Failed to process image: '' @ message e)))))"


section \<open>App.handleProcess\<close>

text \<open>
  The part of the component state that \<open>handleProcess\<close> reads and writes. The function
  returns the state after the handler has run, and the records that \<open>processImage\<close> passed
  to \<open>setProgress\<close> on the way.
\<close>

record AppState =
  selectedFile :: "File option"
  options :: ProcessingOptions
  error :: string
  isProcessing :: bool
  progress :: "ProcessingProgress option"
  processedImages :: "ProcessedImage list"
  isComplete :: bool

definition new_ImageProcessor :: "browser \<Rightarrow> error + unit" where
  "new_ImageProcessor env =
     (if \<not> context2d env then Inl (Error ''Canvas 2D context not supported'') else Inr ())"

definition handleProcess :: "browser \<Rightarrow> AppState \<Rightarrow> AppState \<times> ProcessingProgress list" where
  "handleProcess env s =
     (case selectedFile s of
        None \<Rightarrow> (s\<lparr>error := ''Please select formats and breakpoints''\<rparr>, [])
      | Some file \<Rightarrow>
          (if length (formats (options s)) = 0 \<or> length (breakpoints (options s)) = 0
           then (s\<lparr>error := ''Please select formats and breakpoints''\<rparr>, [])
           else
             (let s1 = s\<lparr>isProcessing := True, isComplete := False, error := []\<rparr>;
                  failed = (\<lambda>s'. s'\<lparr>error := ''Failed to process images. Please try again.'',
                                     isProcessing := False, progress := None\<rparr>)
              in (case new_ImageProcessor env of
                    Inl e \<Rightarrow> (failed s1, [])
                  | Inr processor \<Rightarrow>
                      (case processImage env file (options s) of
                         (evs, Inr images) \<Rightarrow>
                           (s1\<lparr>processedImages := images, isComplete := True,
                               isProcessing := False, progress := None\<rparr>, evs)
                       | (evs, Inl e) \<Rightarrow> (failed s1, evs))))))"


section \<open>ImageQualityAnalyzer\<close>

text \<open>
  \<open>data\<close> is the \<open>Uint8ClampedArray\<close> of an \<open>ImageData\<close>: four bytes per pixel. Reading a
  typed array or an array outside its entries gives \<open>undefined\<close>, which arithmetic turns
  into \<open>NaN\<close>.
\<close>

record ImageData =
  data :: "nat list"
  id_width :: nat
  id_height :: nat

datatype BlurLevel = sharp | moderate | blurry | very_blurry

record ImageQualityMetrics =
  sharpness :: jsnum
  blurLevel :: BlurLevel
  confidence :: jsnum

definition byte_at :: "nat list \<Rightarrow> nat \<Rightarrow> jsnum" where
  "byte_at d i = (if i < length d then Num (real (d ! i)) else NaN)"

definition luminance :: "jsnum \<Rightarrow> jsnum \<Rightarrow> jsnum \<Rightarrow> jsnum" where
  "luminance r g b =
     js_add (js_add (js_mul (binary64 0.299) r) (js_mul (binary64 0.587) g))
       (js_mul (binary64 0.114) b)"

text \<open>
  The array \<open>gray\<close> starts as \<open>new Array(width * height)\<close>, which has no entry; it is a
  partial map from indices to numbers.
\<close>

function gray_loop :: "nat list \<Rightarrow> nat \<Rightarrow> (nat \<rightharpoonup> jsnum) \<Rightarrow> (nat \<rightharpoonup> jsnum)" where
  "gray_loop d i gray =
     (if i < length d
      then gray_loop d (i + 4)
             (gray(i div 4 \<mapsto> luminance (byte_at d i) (byte_at d (i + 1)) (byte_at d (i + 2))))
      else gray)"
  by pat_completeness auto
termination
  by (relation "measure (\<lambda>(d, i, gray). length d - i)") auto

declare gray_loop.simps [simp del]

definition gray_at :: "(nat \<rightharpoonup> jsnum) \<Rightarrow> nat \<Rightarrow> jsnum" where
  "gray_at gray k = (case gray k of Some v \<Rightarrow> v | None \<Rightarrow> NaN)"

definition kernel :: "real list list" where
  "kernel = [[0, -1, 0], [-1, 4, -1], [0, -1, 0]]"

definition kernel_sum :: "(nat \<rightharpoonup> jsnum) \<Rightarrow> nat \<Rightarrow> nat \<Rightarrow> nat \<Rightarrow> jsnum" where
  "kernel_sum gray w y x =
     foldl (\<lambda>sum (ky, kx).
              let pixelIndex = (y + ky - 1) * w + (x + kx - 1)
              in js_add sum (js_mul (gray_at gray pixelIndex) (Num (kernel ! ky ! kx))))
       (Num 0)
       (concat (map (\<lambda>ky. map (\<lambda>kx. (ky, kx)) [0..<3]) [0..<3]))"

text \<open>
  The border is skipped: \<open>y\<close> runs from 1 while \<open>y < height - 1\<close> and \<open>x\<close> from 1 while
  \<open>x < width - 1\<close> (for a height or width of 0 the bound is negative in the program and 0
  here; the range is empty both ways).
\<close>

definition laplacian_values :: "(nat \<rightharpoonup> jsnum) \<Rightarrow> nat \<Rightarrow> nat \<Rightarrow> jsnum list" where
  "laplacian_values gray w h =
     concat (map (\<lambda>y. map (\<lambda>x. kernel_sum gray w y x) [1..<w - 1]) [1..<h - 1])"

definition calculateLaplacianVariance :: "ImageData \<Rightarrow> jsnum" where
  "calculateLaplacianVariance imageData =
     (let gray = gray_loop (data imageData) 0 Map.empty;
          laplacian = laplacian_values gray (id_width imageData) (id_height imageData);
          mean = js_div (foldl (\<lambda>sum val. js_add sum val) (Num 0) laplacian)
                   (Num (real (length laplacian)));
          variance = js_div
                       (foldl (\<lambda>sum val. js_add sum (Math_pow2 (js_sub val mean))) (Num 0)
                          laplacian)
                       (Num (real (length laplacian)))
      in variance)"

definition classifyBlurLevel :: "jsnum \<Rightarrow> BlurLevel" where
  "classifyBlurLevel s =
     (if js_gt s (Num 1000) then sharp
      else if js_gt s (Num 500) then moderate
      else if js_gt s (Num 100) then blurry
      else very_blurry)"

function luminances_loop :: "nat list \<Rightarrow> nat \<Rightarrow> jsnum list \<Rightarrow> jsnum list" where
  "luminances_loop d i luminances =
     (if i < length d
      then luminances_loop d (i + 40)
             (luminances @ [luminance (byte_at d i) (byte_at d (i + 1)) (byte_at d (i + 2))])
      else luminances)"
  by pat_completeness auto
termination
  by (relation "measure (\<lambda>(d, i, luminances). length d - i)") auto

declare luminances_loop.simps [simp del]

definition calculateContrast :: "ImageData \<Rightarrow> jsnum" where
  "calculateContrast imageData =
     (let luminances = luminances_loop (data imageData) 0 [];
          mn = Math_min luminances;
          mx = Math_max luminances
      in js_sub mx mn)"

definition calculateConfidence :: "HTMLImageElement \<Rightarrow> ImageData \<Rightarrow> jsnum" where
  "calculateConfidence imageElement imageData =
     (let confidence0 = Num 0.5;
          pixelCount = width imageElement * height imageElement;
          confidence1 = (if pixelCount > 2000000 then js_add confidence0 (binary64 0.3)
                         else if pixelCount > 500000 then js_add confidence0 (binary64 0.2)
                         else if pixelCount < 100000 then js_sub confidence0 (binary64 0.2)
                         else confidence0);
          contrast = calculateContrast imageData;
          confidence2 = (if js_gt contrast (Num 50) then js_add confidence1 (binary64 0.2)
                         else if js_lt contrast (Num 20) then js_sub confidence1 (binary64 0.1)
                         else confidence1)
      in max2 (Num 0) (min2 (Num 1) confidence2))"

text \<open>
  \<open>analyzeImage\<close> draws the image on a canvas of at most 800 by 600 and reads the pixels
  back. The bytes that \<open>getImageData\<close> returns for the canvas are a parameter; the call
  throws for an empty rectangle.
\<close>

definition getImageData :: "(nat \<Rightarrow> nat \<Rightarrow> nat list) \<Rightarrow> nat \<Rightarrow> nat \<Rightarrow> error + ImageData" where
  "getImageData pixels sw sh =
     (if sw = 0 \<or> sh = 0 then Inl (Error ''IndexSizeError'')
      else Inr \<lparr>data = pixels sw sh, id_width = sw, id_height = sh\<rparr>)"

definition analyzeImage ::
  "(nat \<Rightarrow> nat \<Rightarrow> nat list) \<Rightarrow> HTMLImageElement \<Rightarrow> error + ImageQualityMetrics" where
  "analyzeImage pixels imageElement =
     (let sampleWidth = min (width imageElement) 800;
          sampleHeight = min (height imageElement) 600
      in case getImageData pixels sampleWidth sampleHeight of
           Inl e \<Rightarrow> Inl e
         | Inr imageData \<Rightarrow>
             let sharpness = calculateLaplacianVariance imageData;
                 blurLevel = classifyBlurLevel sharpness;
                 confidence = calculateConfidence imageElement imageData
             in Inr \<lparr>sharpness = sharpness, blurLevel = blurLevel, confidence = confidence\<rparr>)"

text \<open>An \<open>ImageData\<close> as the canvas makes it: four bytes for each of its pixels.\<close>

definition wf_ImageData :: "ImageData \<Rightarrow> bool" where
  "wf_ImageData imageData \<longleftrightarrow>
     length (data imageData) = 4 * id_width imageData * id_height imageData
     \<and> list_all (\<lambda>b. b \<le> 255) (data imageData)"


section \<open>The confidence of the specification\<close>







text \<open>The luminance of pixel \<open>k\<close> as the loops of the program read it.\<close>

definition pixel_luminance :: "nat list \<Rightarrow> nat \<Rightarrow> jsnum" where
  "pixel_luminance d k = luminance (byte_at d (4 * k)) (byte_at d (4 * k + 1)) (byte_at d (4 * k + 2))"


section \<open>The derivative plan of the specification\<close>

text \<open>
  The order the specification prescribes: breakpoints outside, formats inside, for each
  pair the standard derivative and then the retina derivative, a lossless JPEG pair being
  skipped. A job is the target width, the format, the size suffix of the name and the
  label of the progress record.
\<close>

record job =
  job_width :: nat
  job_format :: ImageFormat
  job_suffix :: string
  job_task :: string

definition pair_jobs :: "ProcessingOptions \<Rightarrow> Breakpoint \<Rightarrow> ImageFormat \<Rightarrow> job list" where
  "pair_jobs opts bp f =
     (if lossless opts \<and> extension f = ''jpg'' then []
      else \<lparr>job_width = bp_width bp, job_format = f, job_suffix = show_nat (bp_width bp),
            job_task = ''Processing '' @ bp_name bp @ '' '' @ fmt_name f\<rparr>
           # (if includeRetina opts
              then [\<lparr>job_width = bp_width bp * 2, job_format = f,
                     job_suffix = show_nat (bp_width bp) @ ''@2x'',
                     job_task = ''Processing '' @ bp_name bp @ '' '' @ fmt_name f @ '' @2x''\<rparr>]
              else []))"

definition derivative_plan :: "ProcessingOptions \<Rightarrow> job list" where
  "derivative_plan opts =
     concat (map (\<lambda>bp. concat (map (pair_jobs opts bp) (formats opts))) (breakpoints opts))"

definition job_name :: "job \<Rightarrow> string" where
  "job_name j = ''image-'' @ job_suffix j @ ''.'' @ extension (job_format j)"

fun run_jobs ::
  "browser \<Rightarrow> HTMLImageElement \<Rightarrow> ProcessingOptions \<Rightarrow> nat \<Rightarrow> job list \<Rightarrow> loop_state
    \<Rightarrow> completion" where
  "run_jobs env img opts n [] st = Normal st"
| "run_jobs env img opts n (j # js) st =
     (case createResizedImage env img (job_width j) (job_format j) opts (job_suffix j) of
        Inl e \<Rightarrow> Abrupt e st
      | Inr d \<Rightarrow> run_jobs env img opts n js (push_result d n (job_task j) st))"

text \<open>
  The progress records of a run of jobs that starts after \<open>k\<close> steps: \<open>current\<close> counts
  on from \<open>k\<close>, \<open>total\<close> is the number the program announces.
\<close>

definition progress_of :: "nat \<Rightarrow> nat \<Rightarrow> job list \<Rightarrow> ProcessingProgress list" where
  "progress_of n k js =
     map (\<lambda>(i, j). \<lparr>current = i + 1, total = n, currentTask = job_task j\<rparr>) (enumerate k js)"

text \<open>The four formats of \<open>IMAGE_FORMATS\<close>, by name.\<close>

definition AVIF :: ImageFormat where
  "AVIF = IMAGE_FORMATS ! 0"

definition WEBP :: ImageFormat where
  "WEBP = IMAGE_FORMATS ! 1"

definition JPEG :: ImageFormat where
  "JPEG = IMAGE_FORMATS ! 2"

definition PNG :: ImageFormat where
  "PNG = IMAGE_FORMATS ! 3"

text \<open>
  Whether the canvas delivers a blob for the call that \<open>createResizedImage\<close> makes for a
  target width and a format, and the rule of the HTML standard for \<open>toBlob\<close>: a canvas
  whose bitmap has no pixels calls back with \<open>null\<close>.
\<close>

definition toBlob_delivers ::
  "browser \<Rightarrow> HTMLImageElement \<Rightarrow> nat \<Rightarrow> ImageFormat \<Rightarrow> ProcessingOptions \<Rightarrow> bool" where
  "toBlob_delivers env img targetWidth format opts =
     (case toBlob_impl env (resize_canvas img targetWidth)
             (if extension format = ''png'' \<or> lossless opts then ''image/png''
              else mimeType format)
             (if extension format = ''png'' \<or> lossless opts then None
              else Some (quality opts / 100)) of
        Calls_back (Some n) \<Rightarrow> True
      | _ \<Rightarrow> False)"

definition null_for_empty_canvas :: "browser \<Rightarrow> bool" where
  "null_for_empty_canvas env \<longleftrightarrow>
     (\<forall>cv ty q. canvas_width cv = 0 \<or> canvas_height cv = 0
        \<longrightarrow> toBlob_impl env cv ty q = Calls_back None)"

text \<open>
  A browser to run the program on: its canvas calls back with \<open>null\<close> for a bitmap
  without pixels, as the HTML standard has it, and delivers a blob of one byte for each
  pixel otherwise.
\<close>

definition html_browser :: browser where
  "html_browser =
     \<lparr>context2d = True,
      toBlob_impl = (\<lambda>cv ty q.
         if canvas_width cv = 0 \<or> canvas_height cv = 0 then Calls_back None
         else Calls_back (Some (canvas_width cv * canvas_height cv)))\<rparr>"


text \<open>
  Inputs to run the program on: a source of 3840 by 2160, the options of the
  specification's scenario (breakpoints 1920 and 768, WebP and JPEG, retina), and lossless
  options with JPEG and PNG selected at the breakpoint 768.
\<close>

definition source_4k :: File where
  "source_4k = File (Some \<lparr>width = 3840, height = 2160\<rparr>)"

definition scenario_options :: ProcessingOptions where
  "scenario_options =
     \<lparr>lossless = False, quality = 85, formats = [WEBP, JPEG],
      breakpoints = [DEFAULT_BREAKPOINTS ! 2, DEFAULT_BREAKPOINTS ! 4], includeRetina = True\<rparr>"

definition lossless_options :: "bool \<Rightarrow> ProcessingOptions" where
  "lossless_options retina =
     \<lparr>lossless = True, quality = 85, formats = [JPEG, PNG],
      breakpoints = [DEFAULT_BREAKPOINTS ! 4], includeRetina = retina\<rparr>"

section \<open>Running the program on concrete inputs\<close>

lemmas run_simps =
  processImage_def loadImage_def totalSteps_def format_body_def push_result_def
  createResizedImage_def canvasToBlob_def toBlob_def resize_canvas_def finalHeight_def
  finalWidth_def aspectRatio_def source_4k_def
  IMAGE_FORMATS_def DEFAULT_BREAKPOINTS_def AVIF_def WEBP_def JPEG_def PNG_def
  show_nat.simps digit_char_def
  binary64_def binary64_pos_def binade_def scale_up.simps scale_down.simps
  round_ties_even_def Let_def



section \<open>Rounding to binary64\<close>

text \<open>
  \<open>round_ties_even\<close> is within a half of its argument, \<open>binade x\<close> is the power of two with
  \<open>binade x \<le> x < 2 * binade x\<close>, and for a positive \<open>x\<close> in the normal range the rounded
  value is a finite number within \<open>x / 2 ^ 53\<close> of \<open>x\<close>.
\<close>

lemma round_ties_even_error: "\<bar>of_int (round_ties_even y) - y\<bar> \<le> 1 / 2"
proof -
  have "of_int \<lfloor>y\<rfloor> \<le> y" "y < of_int \<lfloor>y\<rfloor> + 1"
    by linarith+
  then show ?thesis
    by (auto simp: round_ties_even_def Let_def)
qed

lemma round_ties_even_nonneg: "0 \<le> y \<Longrightarrow> 0 \<le> round_ties_even y"
  by (auto simp: round_ties_even_def Let_def)

lemma scale_down_bounds:
  assumes "0 < p" and "x < 2 * p"
  shows "0 < scale_down n x p \<and> x < 2 * scale_down n x p
         \<and> (scale_down n x p \<le> x \<or> scale_down n x p = p / 2 ^ n)"
  using assms
proof (induction n arbitrary: p)
  case 0
  then show ?case by (simp add: scale_down.simps)
next
  case (Suc n)
  show ?case
  proof (cases "x < p")
    case True
    then have step: "scale_down (Suc n) x p = scale_down n x (p / 2)"
      by (subst scale_down.simps) simp
    from Suc.IH [of "p / 2"] Suc.prems True
    have "0 < scale_down n x (p / 2) \<and> x < 2 * scale_down n x (p / 2)
         \<and> (scale_down n x (p / 2) \<le> x \<or> scale_down n x (p / 2) = p / 2 / 2 ^ n)"
      by simp
    then show ?thesis by (simp add: step)
  next
    case False
    then have "scale_down (Suc n) x p = p"
      by (subst scale_down.simps) simp
    with False Suc.prems show ?thesis by simp
  qed
qed

lemma scale_up_bounds:
  assumes "0 < p" and "p \<le> x"
  shows "0 < scale_up n x p \<and> scale_up n x p \<le> x
         \<and> (x < 2 * scale_up n x p \<or> scale_up n x p = p * 2 ^ n)"
  using assms
proof (induction n arbitrary: p)
  case 0
  then show ?case by (simp add: scale_up.simps)
next
  case (Suc n)
  show ?case
  proof (cases "2 * p \<le> x")
    case True
    then have step: "scale_up (Suc n) x p = scale_up n x (2 * p)"
      by (subst scale_up.simps) simp
    from Suc.IH [of "2 * p"] Suc.prems True
    have "0 < scale_up n x (2 * p) \<and> scale_up n x (2 * p) \<le> x
         \<and> (x < 2 * scale_up n x (2 * p) \<or> scale_up n x (2 * p) = 2 * p * 2 ^ n)"
      by simp
    then show ?thesis by (auto simp: step mult_ac)
  next
    case False
    then have "scale_up (Suc n) x p = p"
      by (subst scale_up.simps) simp
    with False Suc.prems show ?thesis by simp
  qed
qed

lemma binade_bounds:
  assumes "1 / 2 ^ 1022 \<le> x" and "x < 2 ^ 1024"
  shows "0 < binade x \<and> binade x \<le> x \<and> x < 2 * binade x"
proof (cases "1 \<le> x")
  case True
  from scale_up_bounds [of 1 x 1023] True
  have b: "0 < scale_up 1023 x 1" "scale_up 1023 x 1 \<le> x"
    "x < 2 * scale_up 1023 x 1 \<or> scale_up 1023 x 1 = 2 ^ 1023"
    by simp_all
  from b(3) assms(2) have "x < 2 * scale_up 1023 x 1"
    by auto
  with b True show ?thesis by (simp add: binade_def)
next
  case False
  from scale_down_bounds [of 1 x 1022] False
  have b: "0 < scale_down 1022 x 1" "x < 2 * scale_down 1022 x 1"
    "scale_down 1022 x 1 \<le> x \<or> scale_down 1022 x 1 = 1 / 2 ^ 1022"
    by simp_all
  from b(3) assms(1) have "scale_down 1022 x 1 \<le> x"
    by auto
  with b False show ?thesis by (simp add: binade_def)
qed

lemma binary64_error:
  assumes "1 / 2 ^ 1022 \<le> x" and "x < 2 ^ 1023"
  shows "\<exists>r. binary64 x = Num r \<and> \<bar>r - x\<bar> \<le> x / 2 ^ 53"
proof -
  have pos: "0 < x"
    using assms(1) by (rule less_le_trans [rotated]) simp
  from assms(2) have "x < 2 ^ 1024"
    by (rule less_trans) simp
  from binade_bounds [OF assms(1) this]
  have b: "0 < binade x" "binade x \<le> x" "x < 2 * binade x"
    by simp_all
  define ulp where "ulp = binade x / 2 ^ 52"
  define r where "r = of_int (round_ties_even (x / ulp)) * ulp"
  have ulp: "0 < ulp" "ulp * 2 ^ 52 = binade x"
    using b(1) by (simp_all add: ulp_def)
  have "\<bar>of_int (round_ties_even (x / ulp)) - x / ulp\<bar> \<le> 1 / 2"
    by (rule round_ties_even_error)
  then have "\<bar>of_int (round_ties_even (x / ulp)) - x / ulp\<bar> * ulp \<le> 1 / 2 * ulp"
    using ulp(1) by (intro mult_right_mono) simp_all
  then have "\<bar>(of_int (round_ties_even (x / ulp)) - x / ulp) * ulp\<bar> \<le> ulp / 2"
    using ulp(1) by (simp add: abs_mult)
  then have err: "\<bar>r - x\<bar> \<le> ulp / 2"
    using ulp(1) by (simp add: r_def left_diff_distrib)
  have "ulp / 2 = binade x / 2 ^ 53"
    by (simp add: ulp_def)
  also have "\<dots> \<le> x / 2 ^ 53"
    using b(2) by (simp add: divide_right_mono)
  finally have half: "ulp / 2 \<le> x / 2 ^ 53" .
  with err have bound: "\<bar>r - x\<bar> \<le> x / 2 ^ 53"
    by simp
  have "x / 2 ^ 53 \<le> x"
    using pos by (simp add: field_simps)
  with bound have "\<bar>r - x\<bar> \<le> x" by (rule order_trans)
  then have "r \<le> 2 * x" by linarith
  also have "\<dots> < 2 * 2 ^ 1023" using assms(2) by simp
  finally have "r < 2 ^ 1024" by simp
  then have "binary64 x = Num r"
    using pos by (simp add: binary64_def binary64_pos_def Let_def r_def ulp_def)
  with bound show ?thesis by blast
qed


section \<open>Properties of the resampler and of the encoder call\<close>


subsection \<open>Resampler arithmetic\<close>

lemma binary64_0: "binary64 0 = Num 0"
  by (simp add: binary64_def)

lemma finalHeight_zero_width:
  assumes "width img = 0"
  shows "finalHeight img tw = NaN"
  using assms by (simp add: finalHeight_def finalWidth_def aspectRatio_def binary64_0)

lemma finalHeight_zero_height:
  assumes "height img = 0" "0 < width img"
  shows "finalHeight img tw = Num 0"
  using assms by (simp add: finalHeight_def finalWidth_def aspectRatio_def binary64_0)

text \<open>
  A quotient of naturals \<open>N / D\<close> is an integer or at least \<open>1 / D\<close> away from the integers
  around it. With \<open>D = 2 * width\<close> this keeps the exact \<open>finalWidth * height / width + 1 / 2\<close>
  away from the integers by more than the rounding errors of the division and the product,
  unless it is an integer itself.
\<close>

lemma tie_or_gap:
  fixes N D :: nat
  assumes "0 < D"
  shows "real N / real D = of_int \<lfloor>real N / real D\<rfloor>
       \<or> (of_int \<lfloor>real N / real D\<rfloor> + 1 / real D \<le> real N / real D
          \<and> real N / real D \<le> of_int \<lfloor>real N / real D\<rfloor> + 1 - 1 / real D)"
proof -
  let ?R = "N div D" and ?m = "N mod D"
  have fl: "\<lfloor>real N / real D\<rfloor> = int ?R"
    by (simp only: floor_divide_of_nat_eq)
  have N: "real N = real ?R * real D + real ?m"
    by (metis div_mult_mod_eq of_nat_add of_nat_mult)
  have t: "real N / real D = real ?R + real ?m / real D"
    using assms by (subst N) (simp add: field_simps)
  show ?thesis
  proof (cases "?m = 0")
    case True
    with t fl show ?thesis by simp
  next
    case False
    then have "1 \<le> ?m" by simp
    moreover have "?m < D" using assms by simp
    then have "?m \<le> D - 1" by arith
    ultimately have a: "1 \<le> real ?m" and b: "real ?m \<le> real D - 1"
      using assms by (simp_all add: of_nat_diff le_diff_conv2)
    have "1 / real D \<le> real ?m / real D"
      using a assms by (simp add: divide_right_mono)
    moreover have "real ?m / real D \<le> (real D - 1) / real D"
      using b assms by (simp add: divide_right_mono)
    moreover have "(real D - 1) / real D = 1 - 1 / real D"
      using assms by (simp add: field_simps)
    ultimately show ?thesis
      using t fl by simp
  qed
qed

text \<open>
  The height \<open>Math.round(finalWidth * (img.height / img.width))\<close> for a source below
  \<open>2 ^ 25\<close> pixels each way: a natural number \<open>k\<close>, which is the exact quotient
  \<open>finalWidth * height / width\<close> rounded with a tie going up, except that at an exact tie the
  two roundings of the program may give one less.
\<close>

lemma finalHeight_rounding:
  assumes w: "0 < width img" "width img < 2 ^ 25" and h: "0 < height img" "height img < 2 ^ 25"
    and tw: "0 < tw"
  defines "x \<equiv> real (min tw (width img)) * real (height img) / real (width img)"
  shows "\<exists>k::int. finalHeight img tw = Num (of_int k) \<and> 0 \<le> k
           \<and> (k = \<lfloor>x + 1 / 2\<rfloor> \<or> (k = \<lfloor>x + 1 / 2\<rfloor> - 1 \<and> x + 1 / 2 = of_int \<lfloor>x + 1 / 2\<rfloor>))"
proof -
  let ?w = "real (width img)" and ?h = "real (height img)" and ?f = "real (min tw (width img))"
  have wr: "1 \<le> ?w" "?w < 2 ^ 25"
  proof -
    from w(1) show "1 \<le> ?w" by simp
    from w(2) have "?w < real (2 ^ 25)" by (simp only: of_nat_less_iff)
    then show "?w < 2 ^ 25" by simp
  qed
  have hr: "1 \<le> ?h" "?h < 2 ^ 25"
  proof -
    from h(1) show "1 \<le> ?h" by simp
    from h(2) have "?h < real (2 ^ 25)" by (simp only: of_nat_less_iff)
    then show "?h < 2 ^ 25" by simp
  qed
  have fr: "1 \<le> ?f" "?f \<le> ?w"
    using w(1) tw by (simp_all add: Suc_le_eq)
  define q where "q = ?h / ?w"
  have q_lo: "1 / 2 ^ 25 < q"
  proof -
    have "1 / 2 ^ 25 < 1 / ?w" using wr by (simp add: field_simps)
    also have "\<dots> \<le> ?h / ?w" using hr(1) wr(1) by (simp add: divide_right_mono)
    finally show ?thesis by (simp add: q_def)
  qed
  have q_hi: "q < 2 ^ 25"
  proof -
    have "?h / ?w \<le> ?h" using wr(1) hr(1) by (simp add: field_simps)
    with hr(2) show ?thesis by (simp add: q_def)
  qed
  have x: "x = ?f * q" by (simp add: x_def q_def)
  have x_hi: "x < 2 ^ 25"
  proof -
    have "?f * ?h / ?w \<le> ?w * ?h / ?w"
      using fr(2) hr(1) wr(1) by (intro divide_right_mono mult_right_mono) simp_all
    also have "\<dots> = ?h" using wr(1) by simp
    finally show ?thesis using hr(2) by (simp add: x_def)
  qed
  have x_lo: "1 / 2 ^ 25 < x"
  proof -
    have "0 < q" using q_lo by (rule less_trans [rotated]) simp
    then have "1 * q \<le> ?f * q" using fr(1) by (intro mult_right_mono) simp_all
    with q_lo show ?thesis unfolding x by linarith
  qed
  have "1 / 2 ^ 1022 \<le> q"
    by (rule order_trans [OF _ less_imp_le [OF q_lo]]) simp
  moreover have "q < 2 ^ 1023"
    by (rule less_trans [OF q_hi]) simp
  ultimately obtain q' where q': "binary64 q = Num q'" "\<bar>q' - q\<bar> \<le> q / 2 ^ 53"
    using binary64_error by blast
  have ar: "aspectRatio img = Num q'"
    using w(1) q'(1) by (simp add: aspectRatio_def q_def)
  define p where "p = ?f * q'"
  have px: "\<bar>p - x\<bar> \<le> x / 2 ^ 53"
  proof -
    have "\<bar>p - x\<bar> = ?f * \<bar>q' - q\<bar>"
      using fr(1) by (simp add: p_def x abs_mult flip: right_diff_distrib)
    also have "\<dots> \<le> ?f * (q / 2 ^ 53)"
      using q'(2) fr(1) by (intro mult_left_mono) simp_all
    finally show ?thesis by (simp add: x)
  qed
  have x0: "0 < x"
    using x_lo by (rule less_trans [rotated]) simp
  then have x53: "x / 2 ^ 53 \<le> x / 2"
    by (simp add: field_simps)
  have p_lo: "x / 2 \<le> p" and p_hi: "p \<le> 2 * x"
    using px x53 x0 by linarith+
  have "1 / 2 ^ 1022 \<le> p"
  proof -
    have "(1 / 2 ^ 1022 :: real) \<le> 1 / 2 ^ 26" by simp
    also have "\<dots> \<le> x / 2" using x_lo by simp
    finally show ?thesis using p_lo by simp
  qed
  moreover have "p < 2 ^ 1023"
  proof -
    have "p < 2 * 2 ^ 25" using p_hi x_hi by linarith
    also have "\<dots> < (2 ^ 1023 :: real)" by simp
    finally show ?thesis .
  qed
  ultimately obtain y where y: "binary64 p = Num y" "\<bar>y - p\<bar> \<le> p / 2 ^ 53"
    using binary64_error by blast
  have fh: "finalHeight img tw = Num (of_int \<lfloor>y + 1 / 2\<rfloor>)"
    by (simp add: finalHeight_def finalWidth_def ar y(1) flip: p_def)
  have "p / 2 ^ 53 \<le> 2 * x / 2 ^ 53"
    using p_hi by (simp add: divide_right_mono)
  with y(2) px have "\<bar>y - x\<bar> \<le> 3 * x / 2 ^ 53"
    by linarith
  also have "\<dots> < 3 * 2 ^ 25 / 2 ^ 53"
    using x_hi by (simp add: divide_strict_right_mono)
  also have "\<dots> = (3 / 2 ^ 28 :: real)" by simp
  finally have yx: "\<bar>y - x\<bar> < 3 / 2 ^ 28" .
  have y0: "0 \<le> y"
  proof -
    have "0 \<le> p" using p_lo x0 by linarith
    then have "p / 2 ^ 53 \<le> p" by (simp add: field_simps)
    with y(2) show ?thesis by linarith
  qed
  then have k0: "0 \<le> \<lfloor>y + 1 / 2\<rfloor>" by simp
  define N D where "N = 2 * (min tw (width img) * height img) + width img" and "D = 2 * width img"
  have D: "0 < D" "real D < 2 ^ 26"
    using w wr(2) by (simp_all add: D_def)
  have t: "x + 1 / 2 = real N / real D"
    using w(1) by (simp add: x_def N_def D_def field_simps)
  have gap: "3 / 2 ^ 28 < 1 / real D"
  proof -
    have "(3 / 2 ^ 28 :: real) < 1 / 2 ^ 26" by simp
    also have "\<dots> < 1 / real D" using D by (simp add: field_simps)
    finally show ?thesis .
  qed
  let ?R = "\<lfloor>x + 1 / 2\<rfloor>"
  from tie_or_gap [OF D(1), of N]
  have "(x + 1 / 2 = of_int ?R)
      \<or> (of_int ?R + 1 / real D \<le> x + 1 / 2 \<and> x + 1 / 2 \<le> of_int ?R + 1 - 1 / real D)"
    unfolding t by blast
  then consider (tie) "x + 1 / 2 = of_int ?R"
    | (gap) "of_int ?R + 1 / real D \<le> x + 1 / 2" "x + 1 / 2 \<le> of_int ?R + 1 - 1 / real D"
    by blast
  moreover from yx have d: "y - x < 3 / 2 ^ 28" "x - y < 3 / 2 ^ 28"
    by (simp_all only: abs_less_iff) linarith+
  have small: "(3 / 2 ^ 28 :: real) < 1" by simp
  ultimately have "\<lfloor>y + 1 / 2\<rfloor> = ?R \<or> (\<lfloor>y + 1 / 2\<rfloor> = ?R - 1 \<and> x + 1 / 2 = of_int ?R)"
  proof cases
    case tie
    have "of_int (?R - 1) = x + 1 / 2 - 1" "of_int (?R + 1) = x + 1 / 2 + 1"
      using tie by simp_all
    then have "of_int (?R - 1) \<le> y + 1 / 2" "y + 1 / 2 < of_int (?R + 1)"
      using d small by linarith+
    then have "?R - 1 \<le> \<lfloor>y + 1 / 2\<rfloor>" "\<lfloor>y + 1 / 2\<rfloor> < ?R + 1"
      by (simp_all only: le_floor_iff floor_less_iff)
    with tie show ?thesis by linarith
  next
    case gap
    have "of_int (?R + 1) = of_int ?R + (1 :: real)"
      by simp
    then have "of_int ?R \<le> y + 1 / 2" "y + 1 / 2 < of_int (?R + 1)"
      using gap d \<open>3 / 2 ^ 28 < 1 / real D\<close> by linarith+
    then have "?R \<le> \<lfloor>y + 1 / 2\<rfloor>" "\<lfloor>y + 1 / 2\<rfloor> < ?R + 1"
      by (simp_all only: le_floor_iff floor_less_iff)
    then show ?thesis by linarith
  qed
  with fh k0 show ?thesis by blast
qed


subsection \<open>createResizedImage\<close>

lemma canvasToBlob_cases:
  "canvasToBlob env cv fmt opts =
     (case toBlob_impl env cv
             (if extension fmt = ''png'' \<or> lossless opts then ''image/png'' else mimeType fmt)
             (if extension fmt = ''png'' \<or> lossless opts then None else Some (quality opts / 100)) of
        Raises m \<Rightarrow> Inl (Error (''Canvas to blob conversion failed: '' @ m))
      | Calls_back None \<Rightarrow> Inl (Error ''Failed to create blob'')
      | Calls_back (Some n) \<Rightarrow>
          Inr \<lparr>blob_type = (if extension fmt = ''png'' \<or> lossless opts then ''image/png'' else mimeType fmt),
               blob_quality = (if extension fmt = ''png'' \<or> lossless opts then None else Some (quality opts / 100)),
               blob_size = n\<rparr>)"
  by (simp add: canvasToBlob_def toBlob_def Let_def split: toBlob_outcome.splits option.splits)

lemma createResizedImage_Inr:
  assumes "createResizedImage env img tw fmt opts sfx = Inr d"
  shows "name d = ''image-'' @ sfx @ ''.'' @ extension fmt"
    and "dim_width (dimensions d) = min tw (width img)"
    and "dim_height (dimensions d) = finalHeight img tw"
    and "size_bytes d = blob_size (blob d)"
    and "blob_type (blob d) = (if extension fmt = ''png'' \<or> lossless opts then ''image/png'' else mimeType fmt)"
    and "blob_quality (blob d) = (if extension fmt = ''png'' \<or> lossless opts then None else Some (quality opts / 100))"
    and "toBlob_impl env (resize_canvas img tw) (blob_type (blob d)) (blob_quality (blob d)) = Calls_back (Some (blob_size (blob d)))"
  using assms
  by (auto simp: createResizedImage_def canvasToBlob_cases finalWidth_def
      split: sum.splits toBlob_outcome.splits option.splits if_splits)

lemma createResizedImage_delivers:
  assumes "toBlob_impl env (resize_canvas img tw)
             (if extension fmt = ''png'' \<or> lossless opts then ''image/png'' else mimeType fmt)
             (if extension fmt = ''png'' \<or> lossless opts then None else Some (quality opts / 100))
           = Calls_back (Some n)"
  shows "\<exists>d. createResizedImage env img tw fmt opts sfx = Inr d"
  using assms by (simp add: createResizedImage_def canvasToBlob_cases)

lemma createResizedImage_null:
  assumes "toBlob_impl env (resize_canvas img tw)
             (if extension fmt = ''png'' \<or> lossless opts then ''image/png'' else mimeType fmt)
             (if extension fmt = ''png'' \<or> lossless opts then None else Some (quality opts / 100))
           = Calls_back None"
  shows "createResizedImage env img tw fmt opts sfx =
           Inl (Error (''Failed to create '' @ sfx @ '' image: Failed to create blob''))"
  using assms by (simp add: createResizedImage_def canvasToBlob_cases)

lemma toBlob_delivers_Inr:
  assumes "toBlob_delivers env img tw f opts"
  shows "\<exists>d. createResizedImage env img tw f opts sfx = Inr d"
proof -
  from assms obtain n where
    "toBlob_impl env (resize_canvas img tw)
       (if extension f = ''png'' \<or> lossless opts then ''image/png'' else mimeType f)
       (if extension f = ''png'' \<or> lossless opts then None else Some (quality opts / 100))
     = Calls_back (Some n)"
    unfolding toBlob_delivers_def
    by (cases "toBlob_impl env (resize_canvas img tw)
       (if extension f = ''png'' \<or> lossless opts then ''image/png'' else mimeType f)
       (if extension f = ''png'' \<or> lossless opts then None else Some (quality opts / 100))")
      (auto split: option.splits)
  then show ?thesis by (rule createResizedImage_delivers)
qed

lemma null_for_empty_canvas_dims:
  assumes "null_for_empty_canvas env"
    and "toBlob_impl env cv ty q = Calls_back (Some n)"
  shows "canvas_width cv \<noteq> 0 \<and> canvas_height cv \<noteq> 0"
proof -
  have "toBlob_impl env cv ty q \<noteq> Calls_back None"
    using assms(2) by simp
  moreover from assms(1) have "canvas_width cv = 0 \<or> canvas_height cv = 0
      \<longrightarrow> toBlob_impl env cv ty q = Calls_back None"
    by (simp add: null_for_empty_canvas_def)
  ultimately show ?thesis by auto
qed

lemma html_browser_null: "null_for_empty_canvas html_browser"
  by (simp add: null_for_empty_canvas_def html_browser_def)


section \<open>The loops of processImage follow the derivative plan\<close>


lemma format_body_run_jobs:
  "format_body env img opts n bp f st = run_jobs env img opts n (pair_jobs opts bp f) st"
  by (simp add: format_body_def pair_jobs_def Let_def split: sum.splits)

lemma run_jobs_append:
  "run_jobs env img opts n (js @ ks) st =
     (case run_jobs env img opts n js st of
        Normal st' \<Rightarrow> run_jobs env img opts n ks st'
      | Abrupt e st' \<Rightarrow> Abrupt e st')"
  by (induction js arbitrary: st) (simp_all split: sum.splits)

lemma for_formats_run_jobs:
  "for_formats env img opts n bp fs st =
     run_jobs env img opts n (concat (map (pair_jobs opts bp) fs)) st"
proof (induction fs arbitrary: st)
  case Nil
  show ?case by simp
next
  case (Cons f fs)
  show ?case
    by (simp add: run_jobs_append format_body_run_jobs Cons.IH split: completion.splits)
qed

lemma for_breakpoints_run_jobs:
  "for_breakpoints env img opts n bps st =
     run_jobs env img opts n
       (concat (map (\<lambda>bp. concat (map (pair_jobs opts bp) (formats opts))) bps)) st"
proof (induction bps arbitrary: st)
  case Nil
  show ?case by simp
next
  case (Cons bp bps)
  show ?case
    by (simp add: run_jobs_append for_formats_run_jobs Cons.IH split: completion.splits)
qed

lemma run_jobs_Normal:
  assumes "run_jobs env img opts n js st = Normal st'"
  shows "\<exists>ds. results st' = results st @ ds
            \<and> list_all2 (\<lambda>j d. createResizedImage env img (job_width j) (job_format j) opts (job_suffix j) = Inr d) js ds
            \<and> currentStep st' = currentStep st + length js
            \<and> emitted st' = emitted st @ progress_of n (currentStep st) js"
  using assms
proof (induction js arbitrary: st)
  case Nil
  then show ?case by (simp add: progress_of_def)
next
  case (Cons j js)
  from Cons.prems obtain d where
    d: "createResizedImage env img (job_width j) (job_format j) opts (job_suffix j) = Inr d"
    and rest: "run_jobs env img opts n js (push_result d n (job_task j) st) = Normal st'"
    by (auto split: sum.splits)
  from Cons.IH [OF rest] obtain ds where
    ds: "results st' = results (push_result d n (job_task j) st) @ ds"
      "list_all2 (\<lambda>j d. createResizedImage env img (job_width j) (job_format j) opts (job_suffix j) = Inr d) js ds"
      "currentStep st' = currentStep (push_result d n (job_task j) st) + length js"
      "emitted st' = emitted (push_result d n (job_task j) st)
         @ progress_of n (currentStep (push_result d n (job_task j) st)) js"
    by blast
  have "results st' = results st @ (d # ds)"
    using ds(1) by (simp add: push_result_def)
  moreover have "list_all2 (\<lambda>j d. createResizedImage env img (job_width j) (job_format j) opts (job_suffix j) = Inr d) (j # js) (d # ds)"
    using d ds(2) by simp
  moreover have "currentStep st' = currentStep st + length (j # js)"
    using ds(3) by (simp add: push_result_def)
  moreover have "emitted st' = emitted st @ progress_of n (currentStep st) (j # js)"
    using ds(4) by (simp add: push_result_def progress_of_def)
  ultimately show ?case by blast
qed

lemma run_jobs_total:
  assumes "\<forall>j\<in>set js. \<exists>d. createResizedImage env img (job_width j) (job_format j) opts (job_suffix j) = Inr d"
  shows "\<exists>st'. run_jobs env img opts n js st = Normal st'"
  using assms
proof (induction js arbitrary: st)
  case Nil
  show ?case by simp
next
  case (Cons j js)
  then obtain d where
    "createResizedImage env img (job_width j) (job_format j) opts (job_suffix j) = Inr d"
    by auto
  with Cons show ?case by simp
qed

lemma run_jobs_Abrupt:
  assumes "run_jobs env img opts n js st = Abrupt e st'"
  shows "\<exists>j\<in>set js. createResizedImage env img (job_width j) (job_format j) opts (job_suffix j) = Inl e"
  using assms
  by (induction js arbitrary: st) (auto split: sum.splits)

lemma processImage_run_jobs:
  "processImage env file opts =
     (case decoded file of
        None \<Rightarrow> ([], Inl (Error ''Failed to process image: Failed to load image''))
      | Some img \<Rightarrow>
          (case run_jobs env img opts (totalSteps opts) (derivative_plan opts)
                  \<lparr>results = [], currentStep = 0, emitted = []\<rparr> of
             Normal st \<Rightarrow> (emitted st, Inr (results st))
           | Abrupt e st \<Rightarrow> (emitted st, Inl (Error (''Failed to process image: '' @ message e)))))"
  by (simp add: processImage_def loadImage_def for_breakpoints_run_jobs derivative_plan_def
      split: option.splits)

lemma processImage_Inr:
  assumes "processImage env file opts = (evs, Inr ds)"
  shows "\<exists>img. decoded file = Some img
           \<and> list_all2 (\<lambda>j d. createResizedImage env img (job_width j) (job_format j) opts (job_suffix j) = Inr d)
                 (derivative_plan opts) ds
           \<and> evs = progress_of (totalSteps opts) 0 (derivative_plan opts)"
proof -
  from assms obtain img st where img: "decoded file = Some img"
    and run: "run_jobs env img opts (totalSteps opts) (derivative_plan opts)
                \<lparr>results = [], currentStep = 0, emitted = []\<rparr> = Normal st"
    and out: "evs = emitted st" "ds = results st"
    by (auto simp: processImage_run_jobs split: option.splits completion.splits)
  from run_jobs_Normal [OF run] out img show ?thesis by auto
qed

lemma processImage_total:
  assumes "decoded file = Some img"
    and "\<forall>j\<in>set (derivative_plan opts). \<exists>d. createResizedImage env img (job_width j) (job_format j) opts (job_suffix j) = Inr d"
  shows "\<exists>evs ds. processImage env file opts = (evs, Inr ds)"
proof -
  from run_jobs_total [OF assms(2)] obtain st where
    "run_jobs env img opts (totalSteps opts) (derivative_plan opts)
       \<lparr>results = [], currentStep = 0, emitted = []\<rparr> = Normal st"
    by blast
  then show ?thesis using assms(1) by (simp add: processImage_run_jobs)
qed

lemma length_pair_jobs:
  "length (pair_jobs opts bp f) =
     (if lossless opts \<and> extension f = ''jpg'' then 0 else if includeRetina opts then 2 else 1)"
  by (simp add: pair_jobs_def)

lemma length_format_jobs:
  "length (concat (map (pair_jobs opts bp) fs)) =
     length (filter (\<lambda>f. \<not> (lossless opts \<and> extension f = ''jpg'')) fs)
       * (if includeRetina opts then 2 else 1)"
  by (induction fs) (simp_all add: length_pair_jobs)

lemma length_derivative_plan:
  "length (derivative_plan opts) =
     length (breakpoints opts)
       * length (filter (\<lambda>f. \<not> (lossless opts \<and> extension f = ''jpg'')) (formats opts))
       * (if includeRetina opts then 2 else 1)"
proof -
  have "length (concat (map (\<lambda>bp. concat (map (pair_jobs opts bp) (formats opts))) bps)) =
          length bps * (length (filter (\<lambda>f. \<not> (lossless opts \<and> extension f = ''jpg'')) (formats opts))
            * (if includeRetina opts then 2 else 1))" for bps
    by (induction bps) (simp_all add: length_format_jobs)
  then show ?thesis by (simp add: derivative_plan_def mult.assoc)
qed

lemma processImage_derivatives:
  assumes "processImage env file opts = (evs, Inr ds)"
  shows "list_all2 (\<lambda>j d. name d = job_name j
            \<and> blob_type (blob d) =
                (if extension (job_format j) = ''png'' \<or> lossless opts then ''image/png''
                 else mimeType (job_format j))
            \<and> blob_quality (blob d) =
                (if extension (job_format j) = ''png'' \<or> lossless opts then None
                 else Some (quality opts / 100)))
          (derivative_plan opts) ds"
proof -
  from processImage_Inr [OF assms] obtain img where
    "list_all2 (\<lambda>j d. createResizedImage env img (job_width j) (job_format j) opts (job_suffix j) = Inr d)
       (derivative_plan opts) ds"
    by blast
  then show ?thesis
    by (rule list_all2_mono) (simp add: createResizedImage_Inr job_name_def)
qed

lemma processImage_names:
  assumes "processImage env file opts = (evs, Inr ds)"
  shows "map name ds = map job_name (derivative_plan opts)"
proof -
  have "list_all2 (\<lambda>j d. name d = job_name j) (derivative_plan opts) ds"
    by (rule list_all2_mono [OF processImage_derivatives [OF assms]]) simp
  then show ?thesis
    by (induction rule: list_all2_induct) simp_all
qed

lemma processImage_length:
  assumes "processImage env file opts = (evs, Inr ds)"
  shows "length ds = length (derivative_plan opts)"
  using processImage_derivatives [OF assms] by (simp add: list_all2_lengthD)

lemma length_filter_not_jpg:
  assumes "distinct (map extension fs)"
  shows "length (filter (\<lambda>f. extension f \<noteq> ''jpg'') fs) =
           length fs - (if ''jpg'' \<in> set (map extension fs) then 1 else 0)"
  using assms
proof (induction fs)
  case Nil
  show ?case by simp
next
  case (Cons f fs)
  show ?case
  proof (cases "extension f = ''jpg''")
    case True
    with Cons.prems have "''jpg'' \<notin> set (map extension fs)"
      by auto
    with Cons True show ?thesis by simp
  next
    case False
    with Cons have len: "length (filter (\<lambda>f. extension f \<noteq> ''jpg'') fs) =
           length fs - (if ''jpg'' \<in> set (map extension fs) then 1 else 0)"
      by simp
    have "fs \<noteq> []" if "''jpg'' \<in> set (map extension fs)"
      using that by auto
    then have "0 < length fs" if "''jpg'' \<in> set (map extension fs)"
      using that by simp
    with False len show ?thesis
      by (auto simp: Suc_diff_le Suc_le_eq)
  qed
qed

lemma all_blobs_total:
  assumes "\<forall>cv ty q. \<exists>n. toBlob_impl env cv ty q = Calls_back (Some n)"
  shows "\<exists>d. createResizedImage env img tw fmt opts sfx = Inr d"
proof -
  from assms obtain n where
    "toBlob_impl env (resize_canvas img tw)
       (if extension fmt = ''png'' \<or> lossless opts then ''image/png'' else mimeType fmt)
       (if extension fmt = ''png'' \<or> lossless opts then None else Some (quality opts / 100))
     = Calls_back (Some n)"
    by blast
  then show ?thesis by (rule createResizedImage_delivers)
qed


lemma list_all2_right:
  assumes "list_all2 P xs ys" and "y \<in> set ys"
  shows "\<exists>x\<in>set xs. P x y"
  using assms by (induction rule: list_all2_induct) auto

lemma list_all2_left:
  assumes "list_all2 P xs ys" and "x \<in> set xs"
  shows "\<exists>y\<in>set ys. P x y"
  using assms by (induction rule: list_all2_induct) auto

lemma derivative_plan_set:
  "j \<in> set (derivative_plan opts) \<longleftrightarrow>
     (\<exists>bp\<in>set (breakpoints opts). \<exists>f\<in>set (formats opts). j \<in> set (pair_jobs opts bp f))"
  by (auto simp: derivative_plan_def)

lemma pair_jobs_format:
  assumes "j \<in> set (pair_jobs opts bp f)"
  shows "job_format j = f \<and> \<not> (lossless opts \<and> extension f = ''jpg'')"
  using assms by (auto simp: pair_jobs_def split: if_splits)

lemma pair_jobs_names:
  "map job_name (pair_jobs opts bp f) =
     (if lossless opts \<and> extension f = ''jpg'' then []
      else (''image-'' @ show_nat (bp_width bp) @ ''.'' @ extension f)
           # (if includeRetina opts
              then [''image-'' @ show_nat (bp_width bp) @ ''@2x.'' @ extension f]
              else []))"
  by (simp add: pair_jobs_def job_name_def)

lemma derivative_plan_names:
  "map job_name (derivative_plan opts) =
     concat (map (\<lambda>bp. concat (map (\<lambda>f.
        if lossless opts \<and> extension f = ''jpg'' then []
        else (''image-'' @ show_nat (bp_width bp) @ ''.'' @ extension f)
             # (if includeRetina opts
                then [''image-'' @ show_nat (bp_width bp) @ ''@2x.'' @ extension f]
                else [])) (formats opts))) (breakpoints opts))"
proof -
  have inner: "map job_name (concat (map (pair_jobs opts bp) fs)) =
      concat (map (\<lambda>f. map job_name (pair_jobs opts bp f)) fs)" for bp fs
    by (induction fs) simp_all
  have outer: "map job_name (concat (map (\<lambda>bp. concat (map (pair_jobs opts bp) (formats opts))) bps)) =
      concat (map (\<lambda>bp. concat (map (\<lambda>f. map job_name (pair_jobs opts bp f)) (formats opts))) bps)" for bps
    by (induction bps) (simp_all add: inner)
  show ?thesis
    unfolding derivative_plan_def outer pair_jobs_names ..
qed

lemma progress_of_nth:
  assumes "i < length js"
  shows "progress_of n k js ! i = \<lparr>current = k + i + 1, total = n, currentTask = job_task (js ! i)\<rparr>"
  using assms by (simp add: progress_of_def nth_enumerate_eq)

lemma length_progress_of: "length (progress_of n k js) = length js"
  by (simp add: progress_of_def)

lemma processImage_progress:
  assumes "processImage env file opts = (evs, Inr ds)"
  shows "length evs = length ds"
    and "\<forall>i<length evs. current (evs ! i) = i + 1 \<and> total (evs ! i) = totalSteps opts"
proof -
  from processImage_Inr [OF assms] have
    evs: "evs = progress_of (totalSteps opts) 0 (derivative_plan opts)"
    by blast
  show "length evs = length ds"
    by (simp add: evs length_progress_of processImage_length [OF assms])
  show "\<forall>i<length evs. current (evs ! i) = i + 1 \<and> total (evs ! i) = totalSteps opts"
    by (simp add: evs length_progress_of progress_of_nth)
qed

lemma skipped_pairs_counted:
  assumes "lossless opts" and "f \<in> set (formats opts)" and "extension f = ''jpg''"
    and "breakpoints opts \<noteq> []"
    and "processImage env file opts = (evs, Inr ds)"
  shows "length ds < totalSteps opts"
proof -
  let ?keep = "\<lambda>f. \<not> (lossless opts \<and> extension f = ''jpg'')"
  have "length (filter ?keep (formats opts)) < length (formats opts)"
    using assms(1-3) by (auto intro: length_filter_less)
  moreover have "0 < length (breakpoints opts)"
    using assms(4) by simp
  ultimately have "length (breakpoints opts) * length (filter ?keep (formats opts))
      < length (breakpoints opts) * length (formats opts)"
    by simp
  then show ?thesis
    by (simp add: processImage_length [OF assms(5)] length_derivative_plan totalSteps_def)
qed


section \<open>Claims about the resampler\<close>

text \<open>
  Claim C3, as the program has it. For a source of width \<open>w0\<close> and height \<open>h0\<close>, both
  positive and below \<open>2 ^ 25\<close>, and a target width \<open>tw > 0\<close>, a derivative that
  \<open>createResizedImage\<close> returns has the width \<open>min tw w0\<close>, which is at least 1, and the
  height \<open>Math.round(width * (h0 / w0))\<close> in JavaScript's arithmetic. That height is a
  natural number \<open>k\<close>; it is \<open>width * h0 / w0\<close> rounded with a tie going up, except that
  where \<open>width * h0 / w0\<close> is exactly midway between two integers the program may return
  the lower one. The height is not clamped, so \<open>k\<close> can be 0; where the canvas calls back
  with \<open>null\<close> for a bitmap without pixels, as the HTML standard has it, a derivative that
  is returned has a height of at least 1.
\<close>

theorem createResizedImage_dimensions:
  assumes "0 < width img" and "width img < 2 ^ 25" and "0 < height img" and "height img < 2 ^ 25"
    and "0 < tw"
    and "createResizedImage env img tw fmt opts sfx = Inr d"
  shows "dim_width (dimensions d) = min tw (width img)
       \<and> 1 \<le> dim_width (dimensions d)
       \<and> (\<exists>k::int. dim_height (dimensions d) = Num (of_int k) \<and> 0 \<le> k
             \<and> (k = \<lfloor>real (dim_width (dimensions d)) * real (height img) / real (width img) + 1 / 2\<rfloor>
                \<or> (k = \<lfloor>real (dim_width (dimensions d)) * real (height img) / real (width img) + 1 / 2\<rfloor> - 1
                   \<and> real (dim_width (dimensions d)) * real (height img) / real (width img) + 1 / 2
                       = of_int \<lfloor>real (dim_width (dimensions d)) * real (height img) / real (width img) + 1 / 2\<rfloor>))
             \<and> (null_for_empty_canvas env \<longrightarrow> 1 \<le> k))"
proof -
  have wd: "dim_width (dimensions d) = min tw (width img)"
    by (rule createResizedImage_Inr(2) [OF assms(6)])
  have hd: "dim_height (dimensions d) = finalHeight img tw"
    by (rule createResizedImage_Inr(3) [OF assms(6)])
  have pos: "1 \<le> min tw (width img)"
    using assms(1,5) by simp
  from finalHeight_rounding [OF assms(1-5)] obtain k :: int where
    k: "finalHeight img tw = Num (of_int k)" "0 \<le> k"
      "k = \<lfloor>real (min tw (width img)) * real (height img) / real (width img) + 1 / 2\<rfloor>
       \<or> (k = \<lfloor>real (min tw (width img)) * real (height img) / real (width img) + 1 / 2\<rfloor> - 1
          \<and> real (min tw (width img)) * real (height img) / real (width img) + 1 / 2
              = of_int \<lfloor>real (min tw (width img)) * real (height img) / real (width img) + 1 / 2\<rfloor>)"
    by blast
  have "1 \<le> k" if "null_for_empty_canvas env"
  proof -
    from null_for_empty_canvas_dims [OF that createResizedImage_Inr(7) [OF assms(6)]]
    have "canvas_height (resize_canvas img tw) \<noteq> 0" by simp
    then have "nat (k mod 2 ^ 32) \<noteq> 0"
      using k(2) by (simp add: resize_canvas_def k(1))
    then have "k \<noteq> 0" by auto
    with k(2) show ?thesis by simp
  qed
  with k wd hd pos show ?thesis
    unfolding wd by auto
qed

text \<open>
  The theorem at a source of 3840 by 2160 and the target width 1920, in a browser whose
  canvas follows the HTML standard: the derivative is 1920 by 1080.
\<close>

theorem createResizedImage_dimensions_witness:
  "null_for_empty_canvas html_browser
   \<and> createResizedImage html_browser \<lparr>width = 3840, height = 2160\<rparr> 1920 WEBP
       \<lparr>lossless = False, quality = 85, formats = [WEBP], breakpoints = [], includeRetina = False\<rparr>
       ''1920''
     = Inr \<lparr>name = ''image-1920.webp'',
            blob = \<lparr>blob_type = ''image/webp'', blob_quality = Some (85 / 100), blob_size = 1920 * 1080\<rparr>,
            size_bytes = 1920 * 1080,
            dimensions = \<lparr>dim_width = 1920, dim_height = Num 1080\<rparr>\<rparr>
   \<and> \<lfloor>real 1920 * real 2160 / real 3840 + 1 / 2\<rfloor> = (1080 :: int)"
proof -
  let ?img = "\<lparr>width = 3840, height = 2160\<rparr>"
  let ?opts = "\<lparr>lossless = False, quality = 85, formats = [WEBP], breakpoints = [], includeRetina = False\<rparr>"
  let ?d = "\<lparr>name = ''image-1920.webp'',
          blob = \<lparr>blob_type = ''image/webp'', blob_quality = Some (85 / 100), blob_size = 1920 * 1080\<rparr>,
          size_bytes = 1920 * 1080,
          dimensions = \<lparr>dim_width = 1920, dim_height = Num 1080\<rparr>\<rparr>"
  have run: "createResizedImage html_browser ?img 1920 WEBP ?opts ''1920'' = Inr ?d"
    by (simp add: run_simps html_browser_def)
  have "0 < width ?img" "width ?img < 2 ^ 25" "0 < height ?img" "height ?img < 2 ^ 25"
    "0 < (1920::nat)"
    by simp_all
  from createResizedImage_dimensions [OF this run] html_browser_null
  obtain k :: int where "dim_height (dimensions ?d) = Num (of_int k)" "1 \<le> k"
    by blast
  then have "\<lfloor>real 1920 * real 2160 / real 3840 + 1 / 2\<rfloor> = (1080 :: int)"
    by simp
  with run html_browser_null show ?thesis by simp
qed

text \<open>
  Claim C3 as stated fails. A source of 3840 by 2020 resized to the target width 480 gets
  the height 252: \<open>2020 / 3840\<close> rounds down, the product with 480 is just below 252.5, and
  \<open>Math.round\<close> gives 252, where \<open>480 * 2020 / 3840 = 252.5\<close> rounded with a tie going up
  is 253. And a source of 1000 by 1 at the target width 100 gets the height 0, not a
  height of at least 1: the canvas has no pixel and the call fails.
\<close>

theorem createResizedImage_height_counterexample:
  "createResizedImage html_browser \<lparr>width = 3840, height = 2020\<rparr> 480 PNG scenario_options ''480''
     = Inr \<lparr>name = ''image-480.png'',
            blob = \<lparr>blob_type = ''image/png'', blob_quality = None, blob_size = 480 * 252\<rparr>,
            size_bytes = 480 * 252,
            dimensions = \<lparr>dim_width = 480, dim_height = Num 252\<rparr>\<rparr>
   \<and> \<lfloor>real 480 * real 2020 / real 3840 + 1 / 2\<rfloor> = (253 :: int)
   \<and> finalHeight \<lparr>width = 1000, height = 1\<rparr> 100 = Num 0
   \<and> createResizedImage html_browser \<lparr>width = 1000, height = 1\<rparr> 100 PNG scenario_options ''100''
     = Inl (Error ''Failed to create 100 image: Failed to create blob'')"
  by (simp add: run_simps html_browser_def scenario_options_def)


section \<open>Claims about the derivative set\<close>

text \<open>
  Claim C2, as the program has it. A lossless JPEG pair is skipped with both of its
  derivatives, so with retina a skipped pair takes two derivatives away, not one. For
  formats that are unique by extension, a run of \<open>processImage\<close> that returns, returns
  \<open>breakpoints.length * formats.length * (includeRetina ? 2 : 1)\<close> derivatives minus, when
  lossless, \<open>breakpoints.length * [JPEG in formats] * (includeRetina ? 2 : 1)\<close>. And
  \<open>processImage\<close> does return when the file loads and \<open>canvas.toBlob\<close> delivers a blob for
  each call that \<open>processImage\<close> makes: for every breakpoint and every format that is not
  skipped, the canvas of the breakpoint's width and, with retina, the canvas of twice that
  width.
\<close>

theorem processImage_count:
  assumes "distinct (map extension (formats opts))"
  shows "(\<forall>evs ds. processImage env file opts = (evs, Inr ds) \<longrightarrow>
            length ds =
              length (breakpoints opts) * length (formats opts) * (if includeRetina opts then 2 else 1)
              - (if lossless opts
                 then length (breakpoints opts)
                        * (if ''jpg'' \<in> set (map extension (formats opts)) then 1 else 0)
                        * (if includeRetina opts then 2 else 1)
                 else 0))
       \<and> (\<forall>img. decoded file = Some img
             \<and> (\<forall>bp\<in>set (breakpoints opts). \<forall>f\<in>set (formats opts).
                   \<not> (lossless opts \<and> extension f = ''jpg'') \<longrightarrow>
                     toBlob_delivers env img (bp_width bp) f opts
                     \<and> (includeRetina opts \<longrightarrow> toBlob_delivers env img (bp_width bp * 2) f opts))
           \<longrightarrow> (\<exists>evs ds. processImage env file opts = (evs, Inr ds)))"
proof (intro conjI allI impI)
  fix evs ds
  assume run: "processImage env file opts = (evs, Inr ds)"
  let ?b = "length (breakpoints opts)"
  let ?f = "length (formats opts)"
  let ?r = "if includeRetina opts then 2 else 1 :: nat"
  let ?i = "if ''jpg'' \<in> set (map extension (formats opts)) then 1 else 0 :: nat"
  have len: "length ds =
      ?b * length (filter (\<lambda>f. \<not> (lossless opts \<and> extension f = ''jpg'')) (formats opts)) * ?r"
    using processImage_length [OF run] by (simp add: length_derivative_plan)
  show "length ds = ?b * ?f * ?r - (if lossless opts then ?b * ?i * ?r else 0)"
  proof (cases "lossless opts")
    case False
    with len show ?thesis by simp
  next
    case True
    with len have "length ds = ?b * (?f - ?i) * ?r"
      by (simp add: length_filter_not_jpg [OF assms])
    also have "\<dots> = ?b * ?f * ?r - ?b * ?i * ?r"
      by (simp add: diff_mult_distrib diff_mult_distrib2)
    finally show ?thesis using True by simp
  qed
next
  fix img
  assume a: "decoded file = Some img
     \<and> (\<forall>bp\<in>set (breakpoints opts). \<forall>f\<in>set (formats opts).
           \<not> (lossless opts \<and> extension f = ''jpg'') \<longrightarrow>
             toBlob_delivers env img (bp_width bp) f opts
             \<and> (includeRetina opts \<longrightarrow> toBlob_delivers env img (bp_width bp * 2) f opts))"
  then have img: "decoded file = Some img" by simp
  have "\<exists>d. createResizedImage env img (job_width j) (job_format j) opts (job_suffix j) = Inr d"
    if "j \<in> set (derivative_plan opts)" for j
  proof -
    from that obtain bp f where bp: "bp \<in> set (breakpoints opts)" and f: "f \<in> set (formats opts)"
      and j: "j \<in> set (pair_jobs opts bp f)"
      by (auto simp: derivative_plan_set)
    from pair_jobs_format [OF j] have keep: "\<not> (lossless opts \<and> extension f = ''jpg'')"
      by simp
    with a bp f have std: "toBlob_delivers env img (bp_width bp) f opts"
      and ret: "includeRetina opts \<longrightarrow> toBlob_delivers env img (bp_width bp * 2) f opts"
      by blast+
    from j keep have "toBlob_delivers env img (job_width j) (job_format j) opts"
      using std ret by (auto simp: pair_jobs_def split: if_splits)
    then show ?thesis by (rule toBlob_delivers_Inr)
  qed
  then show "\<exists>evs ds. processImage env file opts = (evs, Inr ds)"
    by (intro processImage_total [OF img]) blast
qed

text \<open>
  The theorem on lossless options with JPEG and PNG, one breakpoint and retina, in a
  browser whose canvas follows the HTML standard: the two calls for PNG deliver, and the
  run returns two derivatives.
\<close>

theorem processImage_count_witness:
  "distinct (map extension (formats (lossless_options True)))
   \<and> decoded source_4k = Some \<lparr>width = 3840, height = 2160\<rparr>
   \<and> toBlob_delivers html_browser \<lparr>width = 3840, height = 2160\<rparr> 768 PNG (lossless_options True)
   \<and> toBlob_delivers html_browser \<lparr>width = 3840, height = 2160\<rparr> 1536 PNG (lossless_options True)
   \<and> (\<exists>evs ds. processImage html_browser source_4k (lossless_options True) = (evs, Inr ds)
         \<and> length ds = 2)"
proof -
  let ?img = "\<lparr>width = 3840, height = 2160\<rparr>"
  let ?lo = "lossless_options True"
  have d: "distinct (map extension (formats ?lo))"
    by (simp add: lossless_options_def JPEG_def PNG_def IMAGE_FORMATS_def)
  have img: "decoded source_4k = Some ?img"
    by (simp add: source_4k_def)
  have std: "toBlob_delivers html_browser ?img 768 PNG ?lo"
    by (simp add: toBlob_delivers_def run_simps html_browser_def lossless_options_def)
  have ret: "toBlob_delivers html_browser ?img 1536 PNG ?lo"
    by (simp add: toBlob_delivers_def run_simps html_browser_def lossless_options_def)
  have calls: "\<forall>bp\<in>set (breakpoints ?lo). \<forall>f\<in>set (formats ?lo).
       \<not> (lossless ?lo \<and> extension f = ''jpg'') \<longrightarrow>
         toBlob_delivers html_browser ?img (bp_width bp) f ?lo
         \<and> (includeRetina ?lo \<longrightarrow> toBlob_delivers html_browser ?img (bp_width bp * 2) f ?lo)"
    using std ret
    by (simp add: lossless_options_def JPEG_def PNG_def IMAGE_FORMATS_def DEFAULT_BREAKPOINTS_def)
  note count = processImage_count [OF d, of html_browser source_4k]
  from count img calls obtain evs ds where
    run: "processImage html_browser source_4k ?lo = (evs, Inr ds)"
    by blast
  with count have "length ds =
      length (breakpoints ?lo) * length (formats ?lo) * (if includeRetina ?lo then 2 else 1)
      - (if lossless ?lo
         then length (breakpoints ?lo)
                * (if ''jpg'' \<in> set (map extension (formats ?lo)) then 1 else 0)
                * (if includeRetina ?lo then 2 else 1)
         else 0)"
    by blast
  then have "length ds = 2"
    by (simp add: lossless_options_def JPEG_def PNG_def IMAGE_FORMATS_def)
  with run d img std ret show ?thesis by blast
qed

text \<open>
  Claim C2 as stated fails on the same options: the program returns 2 derivatives, the
  formula of the claim gives \<open>1 * 2 * 2 - 1 * 1 = 3\<close>.
\<close>

theorem processImage_count_counterexample:
  "formats (lossless_options True) \<noteq> [] \<and> breakpoints (lossless_options True) \<noteq> []
   \<and> map_sum id length (snd (processImage html_browser source_4k (lossless_options True))) = Inr 2
   \<and> length (breakpoints (lossless_options True)) * length (formats (lossless_options True))
        * (if includeRetina (lossless_options True) then 2 else 1)
      - (if lossless (lossless_options True)
         then length (breakpoints (lossless_options True))
                * (if JPEG \<in> set (formats (lossless_options True)) then 1 else 0)
         else 0) = 3"
  by (simp add: run_simps html_browser_def lossless_options_def)

text \<open>
  Claim C5, as the program has it. The names of the derivatives that \<open>processImage\<close> returns
  follow the nested order: breakpoints outside, formats inside, for each pair
  \<open>image-{width}.{ext}\<close> and then, with retina, \<open>image-{width}@2x.{ext}\<close>. For the source of
  3840 by 2160 with the breakpoints 1920 and 768, the formats WebP and JPEG, retina and
  no lossless, the names are image-1920.webp, image-1920@2x.webp, image-1920.jpg,
  image-1920@2x.jpg, image-768.webp, image-768@2x.webp, image-768.jpg, image-768@2x.jpg,
  in that order: the retina derivative of a pair comes before the next format.
\<close>

theorem processImage_order:
  "(\<forall>evs ds. processImage env file opts = (evs, Inr ds) \<longrightarrow>
      map name ds =
        concat (map (\<lambda>bp. concat (map (\<lambda>f.
          if lossless opts \<and> extension f = ''jpg'' then []
          else (''image-'' @ show_nat (bp_width bp) @ ''.'' @ extension f)
               # (if includeRetina opts
                  then [''image-'' @ show_nat (bp_width bp) @ ''@2x.'' @ extension f]
                  else [])) (formats opts))) (breakpoints opts)))
   \<and> (\<forall>evs ds. processImage env source_4k scenario_options = (evs, Inr ds) \<longrightarrow>
        map name ds =
          [''image-1920.webp'', ''image-1920@2x.webp'', ''image-1920.jpg'', ''image-1920@2x.jpg'',
           ''image-768.webp'', ''image-768@2x.webp'', ''image-768.jpg'', ''image-768@2x.jpg''])"
proof (intro conjI allI impI)
  fix evs ds
  assume "processImage env file opts = (evs, Inr ds)"
  then show "map name ds =
        concat (map (\<lambda>bp. concat (map (\<lambda>f.
          if lossless opts \<and> extension f = ''jpg'' then []
          else (''image-'' @ show_nat (bp_width bp) @ ''.'' @ extension f)
               # (if includeRetina opts
                  then [''image-'' @ show_nat (bp_width bp) @ ''@2x.'' @ extension f]
                  else [])) (formats opts))) (breakpoints opts))"
    by (simp only: processImage_names derivative_plan_names)
next
  fix evs ds
  assume "processImage env source_4k scenario_options = (evs, Inr ds)"
  then have "map name ds = map job_name (derivative_plan scenario_options)"
    by (rule processImage_names)
  also have "\<dots> =
          [''image-1920.webp'', ''image-1920@2x.webp'', ''image-1920.jpg'', ''image-1920@2x.jpg'',
           ''image-768.webp'', ''image-768@2x.webp'', ''image-768.jpg'', ''image-768@2x.jpg'']"
    by (simp add: derivative_plan_names scenario_options_def run_simps)
  finally show "map name ds =
          [''image-1920.webp'', ''image-1920@2x.webp'', ''image-1920.jpg'', ''image-1920@2x.jpg'',
           ''image-768.webp'', ''image-768@2x.webp'', ''image-768.jpg'', ''image-768@2x.jpg'']" .
qed

text \<open>The scenario runs to its end in a browser whose canvas follows the HTML standard.\<close>

theorem processImage_order_witness:
  "map_sum id (map name) (snd (processImage html_browser source_4k scenario_options)) =
     Inr [''image-1920.webp'', ''image-1920@2x.webp'', ''image-1920.jpg'', ''image-1920@2x.jpg'',
          ''image-768.webp'', ''image-768@2x.webp'', ''image-768.jpg'', ''image-768@2x.jpg'']"
proof -
  obtain evs r where run: "processImage html_browser source_4k scenario_options = (evs, r)"
    by (cases "processImage html_browser source_4k scenario_options")
  have "\<exists>ds. r = Inr ds"
    using run by (cases r) (simp_all add: run_simps html_browser_def scenario_options_def)
  then obtain ds where r: "r = Inr ds" ..
  from processImage_order [of html_browser source_4k scenario_options] run r
  have "map name ds =
     [''image-1920.webp'', ''image-1920@2x.webp'', ''image-1920.jpg'', ''image-1920@2x.jpg'',
      ''image-768.webp'', ''image-768@2x.webp'', ''image-768.jpg'', ''image-768@2x.jpg'']"
    by blast
  with run r show ?thesis by simp
qed

text \<open>
  Claim C5 as stated fails: the list of the claim puts image-1920.jpg before
  image-1920@2x.webp, which is not the order of the program (nor the nested order the
  claim itself describes).
\<close>

theorem processImage_order_counterexample:
  "map_sum id (map name) (snd (processImage html_browser source_4k scenario_options)) \<noteq>
     Inr [''image-1920.webp'', ''image-1920.jpg'', ''image-1920@2x.webp'', ''image-1920@2x.jpg'',
          ''image-768.webp'', ''image-768.jpg'', ''image-768@2x.webp'', ''image-768@2x.jpg'']"
  by (simp add: run_simps html_browser_def scenario_options_def)

section \<open>Claims about progress\<close>

text \<open>
  Claim C1 fails on the program. \<open>totalSteps\<close> is computed before the loops from the
  unfiltered product, so a lossless JPEG pair is counted and never performed. With
  lossless options, JPEG and PNG selected, one breakpoint and no retina, the only progress
  record is 1 of 2, and one derivative is returned.
\<close>

theorem progress_total_counts_skipped_pair:
  "processImage html_browser source_4k (lossless_options False) =
    ([\<lparr>current = 1, total = 2, currentTask = ''Processing Mobile PNG''\<rparr>],
     Inr [\<lparr>name = ''image-768.png'',
           blob = \<lparr>blob_type = ''image/png'', blob_quality = None, blob_size = 768 * 432\<rparr>,
           size_bytes = 768 * 432,
           dimensions = \<lparr>dim_width = 768, dim_height = Num 432\<rparr>\<rparr>])"
  by (simp add: run_simps html_browser_def lossless_options_def)

section \<open>Claims about the encoder\<close>

lemma canvasToBlob_lossless_quality:
  assumes "lossless opts"
  shows "canvasToBlob env cv fmt (opts\<lparr>quality := q\<rparr>) = canvasToBlob env cv fmt opts"
  using assms by (simp add: canvasToBlob_def)

lemma createResizedImage_lossless_quality:
  assumes "lossless opts"
  shows "createResizedImage env img tw fmt (opts\<lparr>quality := q\<rparr>) sfx =
           createResizedImage env img tw fmt opts sfx"
  by (simp add: createResizedImage_def canvasToBlob_lossless_quality [OF assms])

lemma run_jobs_lossless_quality:
  assumes "lossless opts"
  shows "run_jobs env img (opts\<lparr>quality := q\<rparr>) n js st = run_jobs env img opts n js st"
  by (induction js arbitrary: st)
     (simp_all add: createResizedImage_lossless_quality [OF assms] split: sum.splits)

lemma derivative_plan_quality:
  "derivative_plan (opts\<lparr>quality := q\<rparr>) = derivative_plan opts"
proof -
  have "pair_jobs (opts\<lparr>quality := q\<rparr>) bp = pair_jobs opts bp" for bp
    by (rule ext) (simp add: pair_jobs_def)
  then show ?thesis
    by (simp add: derivative_plan_def)
qed

lemma processImage_lossless_quality:
  assumes "lossless opts"
  shows "processImage env file (opts\<lparr>quality := q\<rparr>) = processImage env file opts"
proof -
  have t: "totalSteps (opts\<lparr>quality := q\<rparr>) = totalSteps opts"
    by (simp add: totalSteps_def)
  show ?thesis
    unfolding processImage_run_jobs derivative_plan_quality t
      run_jobs_lossless_quality [OF assms] ..
qed

lemma image_format_extensions:
  assumes "f \<in> set IMAGE_FORMATS"
  shows "extension f = ''avif'' \<or> extension f = ''webp'' \<or> extension f = ''jpg'' \<or> extension f = ''png''"
  using assms by (auto simp: IMAGE_FORMATS_def)

lemma name_not_jpg:
  assumes "f \<in> set IMAGE_FORMATS" and "extension f \<noteq> ''jpg''"
  shows "\<not> suffix ''jpg'' (''image-'' @ sfx @ ''.'' @ extension f)"
proof -
  from image_format_extensions [OF assms(1)] assms(2)
  consider "extension f = ''avif''" | "extension f = ''webp''" | "extension f = ''png''"
    by blast
  then show ?thesis
    by cases (simp_all add: suffix_to_prefix)
qed

lemma lossless_derivatives:
  assumes "lossless opts" and "set (formats opts) \<subseteq> set IMAGE_FORMATS"
    and "processImage env file opts = (evs, Inr ds)" and "d \<in> set ds"
  shows "\<not> suffix ''jpg'' (name d) \<and> blob_type (blob d) = ''image/png'' \<and> blob_quality (blob d) = None"
proof -
  from list_all2_right [OF processImage_derivatives [OF assms(3)] assms(4)]
  obtain j where j: "j \<in> set (derivative_plan opts)"
    and nm: "name d = job_name j"
    and ty: "blob_type (blob d) = ''image/png''"
    and q: "blob_quality (blob d) = None"
    using assms(1) by auto
  from j obtain bp f where f: "f \<in> set (formats opts)" and jf: "j \<in> set (pair_jobs opts bp f)"
    by (auto simp: derivative_plan_set)
  from pair_jobs_format [OF jf] assms(1) have "job_format j = f" "extension f \<noteq> ''jpg''"
    by auto
  moreover from f assms(2) have "f \<in> set IMAGE_FORMATS"
    by blast
  ultimately have "\<not> suffix ''jpg'' (job_name j)"
    unfolding job_name_def using name_not_jpg [of f "job_suffix j"] by simp
  with nm ty q show ?thesis by simp
qed

text \<open>
  Claim C4, as the program has it. With lossless options and formats taken from
  \<open>IMAGE_FORMATS\<close>, no derivative that \<open>processImage\<close> returns has a name ending in \<open>jpg\<close>,
  and every derivative is encoded by the lossless call: \<open>toBlob\<close> is asked for \<open>image/png\<close>
  with no quality argument, and the result of \<open>processImage\<close> does not depend on
  \<open>options.quality\<close>. With lossless off and a format other than PNG, \<open>toBlob\<close> is asked for
  the format's media type at the quality \<open>options.quality / 100\<close>. The program passes this
  value as it is, with no clamp; for a quality in the range 10 to 100 of the data model
  (the range of the quality slider) it is the value clamped to \<open>[0.1, 1.0]\<close>.
\<close>

theorem lossless_and_lossy_encoding:
  "(lossless opts \<and> set (formats opts) \<subseteq> set IMAGE_FORMATS
      \<and> processImage env file opts = (evs, Inr ds)
    \<longrightarrow> (\<forall>d\<in>set ds. \<not> suffix ''jpg'' (name d)
            \<and> blob_type (blob d) = ''image/png'' \<and> blob_quality (blob d) = None))
   \<and> (lossless opts \<longrightarrow> processImage env file (opts\<lparr>quality := q\<rparr>) = processImage env file opts)
   \<and> (\<not> lossless opts \<and> extension fmt \<noteq> ''png''
      \<and> createResizedImage env img tw fmt opts sfx = Inr d
    \<longrightarrow> blob_type (blob d) = mimeType fmt
        \<and> blob_quality (blob d) = Some (quality opts / 100)
        \<and> (10 \<le> quality opts \<and> quality opts \<le> 100
             \<longrightarrow> blob_quality (blob d) = Some (max 0.1 (min 1.0 (quality opts / 100)))))"
proof (intro conjI impI ballI)
  fix d'
  assume a: "lossless opts \<and> set (formats opts) \<subseteq> set IMAGE_FORMATS
      \<and> processImage env file opts = (evs, Inr ds)" and d': "d' \<in> set ds"
  from a have l: "lossless opts" and fs: "set (formats opts) \<subseteq> set IMAGE_FORMATS"
    and run: "processImage env file opts = (evs, Inr ds)"
    by simp_all
  have *: "\<not> suffix ''jpg'' (name d') \<and> blob_type (blob d') = ''image/png''
      \<and> blob_quality (blob d') = None"
    by (rule lossless_derivatives [OF l fs run d'])
  from * show "\<not> suffix ''jpg'' (name d')" by simp
  from * show "blob_type (blob d') = ''image/png''" by simp
  from * show "blob_quality (blob d') = None" by simp
next
  assume "lossless opts"
  then show "processImage env file (opts\<lparr>quality := q\<rparr>) = processImage env file opts"
    by (rule processImage_lossless_quality)
next
  assume a: "\<not> lossless opts \<and> extension fmt \<noteq> ''png''
      \<and> createResizedImage env img tw fmt opts sfx = Inr d"
  then have run: "createResizedImage env img tw fmt opts sfx = Inr d" by simp
  from a createResizedImage_Inr(5) [OF run] show "blob_type (blob d) = mimeType fmt" by simp
  from a createResizedImage_Inr(6) [OF run]
  show q: "blob_quality (blob d) = Some (quality opts / 100)" by simp
  show "blob_quality (blob d) = Some (max 0.1 (min 1.0 (quality opts / 100)))"
    if "10 \<le> quality opts \<and> quality opts \<le> 100"
  proof -
    from that have "quality opts / 100 = max 0.1 (min 1.0 (quality opts / 100))" by simp
    with q show ?thesis by simp
  qed
qed


text \<open>
  The theorem on lossless options with JPEG and PNG selected, and on the scenario's
  options at quality 85 for WebP.
\<close>

theorem lossless_and_lossy_encoding_witness:
  "lossless (lossless_options True)
   \<and> set (formats (lossless_options True)) \<subseteq> set IMAGE_FORMATS
   \<and> map_sum id (map (\<lambda>d. (name d, blob_type (blob d), blob_quality (blob d))))
         (snd (processImage html_browser source_4k (lossless_options True)))
       = Inr [(''image-768.png'', ''image/png'', None), (''image-768@2x.png'', ''image/png'', None)]
   \<and> processImage html_browser source_4k ((lossless_options True)\<lparr>quality := 10\<rparr>)
       = processImage html_browser source_4k (lossless_options True)
   \<and> \<not> lossless scenario_options \<and> extension WEBP \<noteq> ''png''
   \<and> 10 \<le> quality scenario_options \<and> quality scenario_options \<le> 100
   \<and> map_sum id (\<lambda>d. (blob_type (blob d), blob_quality (blob d)))
         (createResizedImage html_browser \<lparr>width = 3840, height = 2160\<rparr> 1920 WEBP
            scenario_options ''1920'')
       = Inr (''image/webp'', Some (85 / 100))"
proof -
  let ?lo = "lossless_options True"
  let ?img = "\<lparr>width = 3840, height = 2160\<rparr>"
  have l: "lossless ?lo" by (simp add: lossless_options_def)
  have fs: "set (formats ?lo) \<subseteq> set IMAGE_FORMATS"
    by (simp add: lossless_options_def JPEG_def PNG_def IMAGE_FORMATS_def)
  have run: "map_sum id (map (\<lambda>d. (name d, blob_type (blob d), blob_quality (blob d))))
         (snd (processImage html_browser source_4k ?lo))
       = Inr [(''image-768.png'', ''image/png'', None), (''image-768@2x.png'', ''image/png'', None)]"
    by (simp add: run_simps html_browser_def lossless_options_def)
  have ign: "processImage html_browser source_4k (?lo\<lparr>quality := 10\<rparr>)
       = processImage html_browser source_4k ?lo"
    using lossless_and_lossy_encoding [of ?lo html_browser source_4k] l by blast
  have nl: "\<not> lossless scenario_options" "extension WEBP \<noteq> ''png''"
    "10 \<le> quality scenario_options" "quality scenario_options \<le> 100"
    by (simp_all add: scenario_options_def WEBP_def IMAGE_FORMATS_def)
  obtain d where d: "createResizedImage html_browser ?img 1920 WEBP scenario_options ''1920'' = Inr d"
    by (cases "createResizedImage html_browser ?img 1920 WEBP scenario_options ''1920''")
       (simp_all add: run_simps html_browser_def scenario_options_def)
  from lossless_and_lossy_encoding [of scenario_options html_browser source_4k _ _ _ WEBP ?img 1920 "''1920''" d]
    nl d
  have "blob_type (blob d) = mimeType WEBP
      \<and> blob_quality (blob d) = Some (max 0.1 (min 1.0 (quality scenario_options / 100)))"
    by blast
  then have "blob_type (blob d) = ''image/webp'' \<and> blob_quality (blob d) = Some (85 / 100)"
    by (simp add: scenario_options_def WEBP_def IMAGE_FORMATS_def)
  with d l fs run ign nl show ?thesis by simp
qed

text \<open>
  Claim C4 as stated fails outside that range: at \<open>options.quality = 5\<close> the canvas is asked
  for the quality 0.05, not for 0.1.
\<close>

theorem lossy_quality_counterexample:
  "\<not> lossless (scenario_options\<lparr>quality := 5\<rparr>) \<and> extension WEBP \<noteq> ''png''
   \<and> map_sum id (\<lambda>d. (blob_type (blob d), blob_quality (blob d)))
         (createResizedImage html_browser \<lparr>width = 3840, height = 2160\<rparr> 1920 WEBP
            (scenario_options\<lparr>quality := 5\<rparr>) ''1920'')
       = Inr (''image/webp'', Some (5 / 100))
   \<and> (5 / 100 :: real) \<noteq> max 0.1 (min 1.0 (5 / 100))"
  by (simp add: run_simps html_browser_def scenario_options_def)

lemma standard_job_in_plan:
  assumes "bp \<in> set (breakpoints opts)" and "f \<in> set (formats opts)"
    and "\<not> (lossless opts \<and> extension f = ''jpg'')"
  shows "\<exists>j\<in>set (derivative_plan opts). job_format j = f \<and> job_suffix j = show_nat (bp_width bp)"
proof -
  let ?j = "\<lparr>job_width = bp_width bp, job_format = f, job_suffix = show_nat (bp_width bp),
             job_task = ''Processing '' @ bp_name bp @ '' '' @ fmt_name f\<rparr>"
  have "?j \<in> set (pair_jobs opts bp f)"
    using assms(3) by (simp add: pair_jobs_def)
  with assms(1,2) have "?j \<in> set (derivative_plan opts)"
    by (auto simp: derivative_plan_set)
  then show ?thesis
    by (rule bexI [rotated]) simp
qed

text \<open>
  Claim C10. With lossless options every derivative is encoded by the call of \<open>toBlob\<close> for
  \<open>image/png\<close>, and its name keeps the extension of the requested format. So for a format
  of \<open>IMAGE_FORMATS\<close> other than PNG and JPEG (AVIF, WebP) and every breakpoint, the result
  holds a derivative named \<open>image-{width}.{ext}\<close> whose blob was asked for as \<open>image/png\<close>,
  which is not the media type of the format.
\<close>

theorem lossless_name_keeps_extension:
  "(lossless opts \<and> createResizedImage env img tw f opts sfx = Inr d
    \<longrightarrow> blob_type (blob d) = ''image/png'' \<and> name d = ''image-'' @ sfx @ ''.'' @ extension f)
   \<and> (lossless opts \<and> bp \<in> set (breakpoints opts) \<and> f \<in> set (formats opts)
        \<and> f \<in> set IMAGE_FORMATS \<and> extension f \<noteq> ''png'' \<and> extension f \<noteq> ''jpg''
        \<and> processImage env file opts = (evs, Inr ds)
      \<longrightarrow> (\<exists>d'\<in>set ds. name d' = ''image-'' @ show_nat (bp_width bp) @ ''.'' @ extension f
             \<and> blob_type (blob d') = ''image/png''
             \<and> blob_type (blob d') \<noteq> mimeType f))"
proof (intro conjI impI)
  assume a: "lossless opts \<and> createResizedImage env img tw f opts sfx = Inr d"
  then have run: "createResizedImage env img tw f opts sfx = Inr d" by simp
  from a createResizedImage_Inr(5) [OF run] show "blob_type (blob d) = ''image/png''" by simp
  from createResizedImage_Inr(1) [OF run] show "name d = ''image-'' @ sfx @ ''.'' @ extension f" .
next
  assume a: "lossless opts \<and> bp \<in> set (breakpoints opts) \<and> f \<in> set (formats opts)
        \<and> f \<in> set IMAGE_FORMATS \<and> extension f \<noteq> ''png'' \<and> extension f \<noteq> ''jpg''
        \<and> processImage env file opts = (evs, Inr ds)"
  then have run: "processImage env file opts = (evs, Inr ds)" by simp
  from a standard_job_in_plan [of bp opts f] obtain j where
    j: "j \<in> set (derivative_plan opts)" "job_format j = f" "job_suffix j = show_nat (bp_width bp)"
    by auto
  from list_all2_left [OF processImage_derivatives [OF run] j(1)] a j(2)
  obtain d' where d': "d' \<in> set ds" "name d' = job_name j" "blob_type (blob d') = ''image/png''"
    by auto
  from a have "mimeType f \<noteq> ''image/png''"
    by (auto simp: IMAGE_FORMATS_def)
  with d' j show "\<exists>d'\<in>set ds. name d' = ''image-'' @ show_nat (bp_width bp) @ ''.'' @ extension f
             \<and> blob_type (blob d') = ''image/png''
             \<and> blob_type (blob d') \<noteq> mimeType f"
    by (auto simp: job_name_def)
qed

text \<open>
  The theorem on lossless options with AVIF and WebP selected at the breakpoint 768: the
  derivative image-768.webp was asked for as \<open>image/png\<close>.
\<close>

theorem lossless_name_keeps_extension_witness:
  "lossless ((lossless_options False)\<lparr>formats := [AVIF, WEBP]\<rparr>)
   \<and> DEFAULT_BREAKPOINTS ! 4 \<in> set (breakpoints ((lossless_options False)\<lparr>formats := [AVIF, WEBP]\<rparr>))
   \<and> WEBP \<in> set (formats ((lossless_options False)\<lparr>formats := [AVIF, WEBP]\<rparr>))
   \<and> WEBP \<in> set IMAGE_FORMATS \<and> extension WEBP \<noteq> ''png'' \<and> extension WEBP \<noteq> ''jpg''
   \<and> map_sum id (map (\<lambda>d. (name d, blob_type (blob d))))
         (snd (processImage html_browser source_4k ((lossless_options False)\<lparr>formats := [AVIF, WEBP]\<rparr>)))
       = Inr [(''image-768.avif'', ''image/png''), (''image-768.webp'', ''image/png'')]
   \<and> (\<exists>d\<in>set (projr (snd (processImage html_browser source_4k
                                ((lossless_options False)\<lparr>formats := [AVIF, WEBP]\<rparr>)))).
         name d = ''image-768.webp'' \<and> blob_type (blob d) = ''image/png''
         \<and> blob_type (blob d) \<noteq> mimeType WEBP)"
proof -
  let ?lo = "(lossless_options False)\<lparr>formats := [AVIF, WEBP]\<rparr>"
  have hyps: "lossless ?lo" "DEFAULT_BREAKPOINTS ! 4 \<in> set (breakpoints ?lo)"
    "WEBP \<in> set (formats ?lo)" "WEBP \<in> set IMAGE_FORMATS"
    "extension WEBP \<noteq> ''png''" "extension WEBP \<noteq> ''jpg''"
    by (simp_all add: lossless_options_def WEBP_def IMAGE_FORMATS_def)
  have names: "map_sum id (map (\<lambda>d. (name d, blob_type (blob d))))
         (snd (processImage html_browser source_4k ?lo))
       = Inr [(''image-768.avif'', ''image/png''), (''image-768.webp'', ''image/png'')]"
    by (simp add: run_simps html_browser_def lossless_options_def)
  obtain evs r where run: "processImage html_browser source_4k ?lo = (evs, r)"
    by (cases "processImage html_browser source_4k ?lo")
  with names obtain ds where r: "r = Inr ds"
    by (cases r) simp_all
  from lossless_name_keeps_extension
         [of ?lo html_browser _ _ WEBP _ _ "DEFAULT_BREAKPOINTS ! 4" source_4k evs ds]
       hyps run r
  have "\<exists>d'\<in>set ds. name d' = ''image-'' @ show_nat (bp_width (DEFAULT_BREAKPOINTS ! 4)) @ ''.'' @ extension WEBP
             \<and> blob_type (blob d') = ''image/png''
             \<and> blob_type (blob d') \<noteq> mimeType WEBP"
    by blast
  then have "\<exists>d\<in>set ds. name d = ''image-768.webp'' \<and> blob_type (blob d) = ''image/png''
         \<and> blob_type (blob d) \<noteq> mimeType WEBP"
    by (simp add: DEFAULT_BREAKPOINTS_def WEBP_def IMAGE_FORMATS_def show_nat.simps digit_char_def)
  with hyps names run r show ?thesis by simp
qed

section \<open>Claims about errors\<close>

lemma processImage_nothing_to_do:
  assumes "formats opts = [] \<or> breakpoints opts = []"
  shows "derivative_plan opts = []"
  using assms by (auto simp: derivative_plan_def)

text \<open>
  Claim C6, as the program has it. \<open>processImage\<close> has no check of its options: with no
  format or no breakpoint it loads the file, runs no iteration, calls \<open>onProgress\<close> never
  and returns the empty list (or the error of the load). The check is in the caller:
  \<open>handleProcess\<close> sets the message \<open>Please select formats and breakpoints\<close> and returns
  before it creates a processor, so no derivative is produced and no progress record is
  passed on.
\<close>

theorem empty_options_rejected_by_caller:
  "(formats opts = [] \<or> breakpoints opts = []
    \<longrightarrow> processImage env file opts =
          (case decoded file of
             None \<Rightarrow> ([], Inl (Error ''Failed to process image: Failed to load image''))
           | Some img \<Rightarrow> ([], Inr [])))
   \<and> (formats (options s) = [] \<or> breakpoints (options s) = []
      \<longrightarrow> handleProcess env s = (s\<lparr>error := ''Please select formats and breakpoints''\<rparr>, []))"
proof (intro conjI impI)
  assume "formats opts = [] \<or> breakpoints opts = []"
  then have "derivative_plan opts = []"
    by (rule processImage_nothing_to_do)
  then show "processImage env file opts =
          (case decoded file of
             None \<Rightarrow> ([], Inl (Error ''Failed to process image: Failed to load image''))
           | Some img \<Rightarrow> ([], Inr []))"
    by (simp add: processImage_run_jobs split: option.splits)
next
  assume "formats (options s) = [] \<or> breakpoints (options s) = []"
  then show "handleProcess env s = (s\<lparr>error := ''Please select formats and breakpoints''\<rparr>, [])"
    by (auto simp: handleProcess_def split: option.splits)
qed

text \<open>The theorem on the scenario's options with no format selected.\<close>

theorem empty_options_rejected_by_caller_witness:
  "(formats (scenario_options\<lparr>formats := []\<rparr>) = [] \<or> breakpoints (scenario_options\<lparr>formats := []\<rparr>) = [])
   \<and> processImage html_browser source_4k (scenario_options\<lparr>formats := []\<rparr>) = ([], Inr [])
   \<and> handleProcess html_browser
         \<lparr>selectedFile = Some source_4k, options = scenario_options\<lparr>formats := []\<rparr>, error = [],
          isProcessing = False, progress = None, processedImages = [], isComplete = False\<rparr>
       = (\<lparr>selectedFile = Some source_4k, options = scenario_options\<lparr>formats := []\<rparr>,
           error = ''Please select formats and breakpoints'',
           isProcessing = False, progress = None, processedImages = [], isComplete = False\<rparr>, [])"
proof -
  let ?o = "scenario_options\<lparr>formats := []\<rparr>"
  let ?s = "\<lparr>selectedFile = Some source_4k, options = ?o, error = [],
          isProcessing = False, progress = None, processedImages = [], isComplete = False\<rparr>"
  have e: "formats ?o = [] \<or> breakpoints ?o = []" by simp
  have e': "formats (options ?s) = [] \<or> breakpoints (options ?s) = []" by simp
  from empty_options_rejected_by_caller [of ?o html_browser source_4k ?s] e e'
  show ?thesis by (simp add: source_4k_def)
qed

text \<open>
  Claim C6 as stated fails: with no format selected \<open>processImage\<close> raises nothing, it
  returns the empty list.
\<close>

theorem processImage_empty_formats_counterexample:
  "formats (scenario_options\<lparr>formats := []\<rparr>) = []
   \<and> processImage html_browser source_4k (scenario_options\<lparr>formats := []\<rparr>) = ([], Inr [])"
  by (simp add: run_simps html_browser_def scenario_options_def)

text \<open>
  Claim C7. For a source whose width or height is 0 the canvas that \<open>createResizedImage\<close>
  sizes has a width or a height of 0. Where the canvas calls back with \<open>null\<close> for a bitmap
  without pixels, as the HTML standard has it, the call fails and returns no derivative.
  The error is the one kind of error of the program, raised where the resampled canvas is
  encoded, with the message \<open>Failed to create {suffix} image: Failed to create blob\<close>.
\<close>

theorem zero_dimension_source_fails:
  assumes "width img = 0 \<or> height img = 0" and "null_for_empty_canvas env"
  shows "createResizedImage env img tw fmt opts sfx =
           Inl (Error (''Failed to create '' @ sfx @ '' image: Failed to create blob''))
       \<and> (\<forall>d. createResizedImage env img tw fmt opts sfx \<noteq> Inr d)"
proof -
  have z: "canvas_width (resize_canvas img tw) = 0 \<or> canvas_height (resize_canvas img tw) = 0"
  proof (cases "width img = 0")
    case True
    then show ?thesis by (simp add: resize_canvas_def finalWidth_def)
  next
    case False
    with assms(1) have "height img = 0" "0 < width img" by simp_all
    then show ?thesis by (simp add: resize_canvas_def finalHeight_zero_height)
  qed
  have "canvas_width cv = 0 \<or> canvas_height cv = 0 \<longrightarrow> toBlob_impl env cv ty q = Calls_back None"
    for cv ty q
    using assms(2) by (simp add: null_for_empty_canvas_def)
  with z have "toBlob_impl env (resize_canvas img tw)
             (if extension fmt = ''png'' \<or> lossless opts then ''image/png'' else mimeType fmt)
             (if extension fmt = ''png'' \<or> lossless opts then None else Some (quality opts / 100))
           = Calls_back None"
    by blast
  then have "createResizedImage env img tw fmt opts sfx =
           Inl (Error (''Failed to create '' @ sfx @ '' image: Failed to create blob''))"
    by (rule createResizedImage_null)
  then show ?thesis by simp
qed

text \<open>
  The theorem on a source of 1000 by 0 and on a source of 0 by 600, in a browser whose
  canvas follows the HTML standard.
\<close>

theorem zero_dimension_source_fails_witness:
  "(width \<lparr>width = 1000, height = 0\<rparr> = 0 \<or> height \<lparr>width = 1000, height = 0\<rparr> = 0)
   \<and> null_for_empty_canvas html_browser
   \<and> resize_canvas \<lparr>width = 1000, height = 0\<rparr> 100 = \<lparr>canvas_width = 100, canvas_height = 0\<rparr>
   \<and> createResizedImage html_browser \<lparr>width = 1000, height = 0\<rparr> 100 PNG scenario_options ''100''
       = Inl (Error ''Failed to create 100 image: Failed to create blob'')
   \<and> resize_canvas \<lparr>width = 0, height = 600\<rparr> 100 = \<lparr>canvas_width = 0, canvas_height = 0\<rparr>
   \<and> createResizedImage html_browser \<lparr>width = 0, height = 600\<rparr> 100 PNG scenario_options ''100''
       = Inl (Error ''Failed to create 100 image: Failed to create blob'')"
proof -
  let ?a = "\<lparr>width = 1000, height = 0\<rparr>" and ?b = "\<lparr>width = 0, height = 600\<rparr>"
  have za: "width ?a = 0 \<or> height ?a = 0" and zb: "width ?b = 0 \<or> height ?b = 0"
    by simp_all
  have cv: "resize_canvas ?a 100 = \<lparr>canvas_width = 100, canvas_height = 0\<rparr>"
    "resize_canvas ?b 100 = \<lparr>canvas_width = 0, canvas_height = 0\<rparr>"
    by (simp_all add: resize_canvas_def finalHeight_def finalWidth_def aspectRatio_def binary64_0)
  from zero_dimension_source_fails [OF za html_browser_null, of 100 PNG scenario_options "''100''"]
    zero_dimension_source_fails [OF zb html_browser_null, of 100 PNG scenario_options "''100''"]
    za html_browser_null cv
  show ?thesis by simp
qed


section \<open>Claims about the quality analyzer\<close>

subsection \<open>Confidence\<close>

















subsection \<open>Sharpness\<close>

lemma laplacian_values_empty:
  assumes "w \<le> 2 \<or> h \<le> 2"
  shows "laplacian_values gray w h = []"
  using assms by (auto simp: laplacian_values_def)

lemma calculateLaplacianVariance_no_interior:
  assumes "id_width imageData \<le> 2 \<or> id_height imageData \<le> 2"
  shows "calculateLaplacianVariance imageData = NaN"
  by (simp add: calculateLaplacianVariance_def Let_def laplacian_values_empty [OF assms])

lemma gray_loop_eq:
  "gray_loop d (4 * i) g =
     (\<lambda>k. if i \<le> k \<and> 4 * k < length d then Some (pixel_luminance d k) else g k)"
proof (induction "length d - 4 * i" arbitrary: i g rule: less_induct)
  case less
  show ?case
  proof (cases "4 * i < length d")
    case False
    then have "gray_loop d (4 * i) g = g"
      by (subst gray_loop.simps) simp
    with False show ?thesis
      by (auto simp: fun_eq_iff)
  next
    case True
    have "gray_loop d (4 * i) g = gray_loop d (4 * Suc i) (g(i \<mapsto> pixel_luminance d i))"
      using True by (subst gray_loop.simps) (simp add: pixel_luminance_def add.commute)
    also have "\<dots> = (\<lambda>k. if Suc i \<le> k \<and> 4 * k < length d then Some (pixel_luminance d k)
                        else (g(i \<mapsto> pixel_luminance d i)) k)"
      by (rule less.hyps) (use True in simp)
    also have "\<dots> = (\<lambda>k. if i \<le> k \<and> 4 * k < length d then Some (pixel_luminance d k) else g k)"
      using True by (auto simp: fun_eq_iff)
    finally show ?thesis .
  qed
qed

text \<open>
  Claim C8 fails on the program. For an image of one pixel the interior is empty, the list
  of edge responses is empty, and mean and variance are \<open>0 / 0\<close>: the sharpness is \<open>NaN\<close>,
  not a number that is at least 0. The same holds for every sampled width or height of at
  most 2 (\<open>calculateLaplacianVariance_no_interior\<close>).
\<close>

theorem sharpness_of_single_pixel_is_NaN:
  "calculateLaplacianVariance \<lparr>data = [10, 20, 30, 255], id_width = 1, id_height = 1\<rparr> = NaN
   \<and> analyzeImage (\<lambda>w h. [10, 20, 30, 255]) \<lparr>width = 1, height = 1\<rparr>
       = Inr \<lparr>sharpness = NaN, blurLevel = very_blurry,
              confidence = Num (7205759403792793 / 36028797018963968)\<rparr>"
  by (simp add: analyzeImage_def getImageData_def Let_def calculateLaplacianVariance_def
      laplacian_values_def classifyBlurLevel_def js_gt_def calculateConfidence_def
      calculateContrast_def luminances_loop.simps luminance_def byte_at_def Math_min_def
      Math_max_def js_sub_def binary64_def binary64_pos_def binade_def scale_up.simps
      scale_down.simps round_ties_even_def)

end
